theory Spec2Isabelle
  imports Complex_Main "HOL-Library.Word"
begin

chapter \<open>FSB/BANK extractor: a model of FSB\_BANK\_Extractor\_CPP.cpp\<close>

text \<open>
  The program carves FSB5 sub-containers out of a .bank file, opens every container with the
  FMOD engine and writes each sub-sound as a WAV file. The first part of this theory holds
  the model (one HOL definition per source function, with the source's names), the second
  part the properties proved about it.

  Conventions of the model.
  \<^item> Bytes are \<open>8 word\<close>, \<open>unsigned int\<close>/\<open>uint32_t\<close> are \<open>32 word\<close> or a \<open>nat\<close> with the
    reduction \<open>mod 2 ^ 32\<close> written out, \<open>uint16_t\<close> is \<open>16 word\<close>, \<open>uint64_t\<close> is
    \<open>64 word\<close>. A C \<open>int\<close> is an \<open>int\<close>; where the program multiplies two of them, the
    product is reduced to 32 bits (\<open>int32\<close>, two's complement), which is what the compiled
    program computes. Signed overflow is undefined behaviour in C++, so every property
    that depends on such a product is stated for the runs in which it does not overflow.
  \<^item> Multi-byte values are written to files in the byte order of the machine; the program
    is built for x86/x64 Windows, so the model is little-endian.
  \<^item> A \<open>float\<close> is its IEEE 754 binary32 bit pattern (\<open>32 word\<close>).
  \<^item> An exception is a value \<open>Inl (runtime_error msg)\<close>; a loop whose number of rounds the
    code does not bound takes a fuel argument and answers \<open>None\<close> ("still running") when
    the fuel is used up.
  \<^item> Console and log messages are left out except where a property speaks about them.
\<close>

section \<open>Part I: the model\<close>

subsection \<open>Bytes, little-endian fields and output files\<close>

type_synonym byte = "8 word"

definition bytes_of :: "string \<Rightarrow> byte list" where
  "bytes_of s = map of_char s"

text \<open>\<open>write_data\<close> of the source writes the object representation of its argument:
  \<open>sizeof\<close> bytes, least significant byte first.\<close>

definition le16 :: "16 word \<Rightarrow> byte list" where
  "le16 w = [of_nat (unat w mod 256), of_nat (unat w div 256 mod 256)]"

definition le32 :: "32 word \<Rightarrow> byte list" where
  "le32 w = [of_nat (unat w mod 256), of_nat (unat w div 256 mod 256),
             of_nat (unat w div 65536 mod 256), of_nat (unat w div 16777216 mod 256)]"

text \<open>Reading a field back from a byte sequence (used to say what a header field holds, and
  by the sub-container extractor to read the \<open>uint32_t\<close> header fields).\<close>

definition u16_at :: "byte list \<Rightarrow> nat \<Rightarrow> 16 word" where
  "u16_at bs i = of_nat (unat (bs ! i) + 256 * unat (bs ! (i + 1)))"

definition u32_at :: "byte list \<Rightarrow> nat \<Rightarrow> 32 word" where
  "u32_at bs i = of_nat (unat (bs ! i) + 256 * unat (bs ! (i + 1))
                  + 65536 * unat (bs ! (i + 2)) + 16777216 * unat (bs ! (i + 3)))"

text \<open>A \<open>std::ofstream\<close>: whether it is open, and the bytes written so far. The program
  never enables stream exceptions, so a \<open>write\<close> never throws; writing to a stream that is
  not open stores nothing. Device failures (disk full) are outside the model.\<close>

record ofstream =
  is_open :: bool
  content :: "byte list"

definition ofs_write :: "ofstream \<Rightarrow> byte list \<Rightarrow> ofstream" where
  "ofs_write file bs = (if is_open file then file\<lparr>content := content file @ bs\<rparr> else file)"

subsection \<open>The engine's types\<close>

text \<open>Modelled from the spec: the result code of an engine call. The FMOD header that
  declares \<open>FMOD_RESULT\<close> is not among the sources; the program only tells \<open>FMOD_OK\<close>
  from the other codes, and \<open>FMOD_ERR_TAGNOTFOUND\<close> from the rest when it reads a name.\<close>

datatype FMOD_RESULT = FMOD_OK | FMOD_ERR_TAGNOTFOUND | FMOD_ERR nat

text \<open>Modelled from the spec: the sample-format tag (8-bit PCM, 16-bit PCM, 24-bit packed
  PCM, 32-bit PCM, 32-bit float PCM, compressed/bitstream, unknown). The FMOD header that
  declares \<open>FMOD_SOUND_FORMAT\<close> is not among the sources; the constructors are the
  enumerators the program names.\<close>

datatype FMOD_SOUND_FORMAT =
    FMOD_SOUND_FORMAT_NONE
  | FMOD_SOUND_FORMAT_PCM8
  | FMOD_SOUND_FORMAT_PCM16
  | FMOD_SOUND_FORMAT_PCM24
  | FMOD_SOUND_FORMAT_PCM32
  | FMOD_SOUND_FORMAT_PCMFLOAT
  | FMOD_SOUND_FORMAT_BITSTREAM
  | FMOD_SOUND_FORMAT_MAX

datatype exn = runtime_error string

text \<open>\<open>CheckFMODResult\<close> throws unless the result is \<open>FMOD_OK\<close>. The thrown message is
  the given message followed by the engine's error text, which the model leaves out.\<close>

definition CheckFMODResult :: "FMOD_RESULT \<Rightarrow> string \<Rightarrow> exn + unit" where
  "CheckFMODResult result message =
     (if result \<noteq> FMOD_OK then Inl (runtime_error message) else Inr ())"

subsection \<open>Single-precision floats\<close>

text \<open>A \<open>float\<close> is its bit pattern: sign (1 bit), biased exponent (8 bits), fraction
  (23 bits). \<open>float_val\<close> is the number the pattern stands for. An infinity (exponent 255,
  fraction 0) gets the value \<open>\<plusminus> 2 ^ 128\<close>, which lies beyond every finite binary32 value, so
  that comparing values orders infinities as IEEE 754 does. A NaN (exponent 255, fraction
  not 0) compares false with everything.\<close>

type_synonym float32 = "32 word"

definition f_sign :: "float32 \<Rightarrow> nat" where
  "f_sign w = unat w div 2147483648"

definition f_exp :: "float32 \<Rightarrow> nat" where
  "f_exp w = unat w div 8388608 mod 256"

definition f_frac :: "float32 \<Rightarrow> nat" where
  "f_frac w = unat w mod 8388608"

definition isnan :: "float32 \<Rightarrow> bool" where
  "isnan w = (f_exp w = 255 \<and> f_frac w \<noteq> 0)"

definition float_val :: "float32 \<Rightarrow> real" where
  "float_val w =
     (if f_sign w = 1 then - 1 else 1)
     * (if f_exp w = 0 then real (f_frac w) * 2 else real (8388608 + f_frac w) * 2 ^ f_exp w)
     / 2 ^ 150"

definition float_less :: "float32 \<Rightarrow> float32 \<Rightarrow> bool" where
  "float_less a b = (\<not> isnan a \<and> \<not> isnan b \<and> float_val a < float_val b)"

text \<open>The literals \<open>0\<close>, \<open>-1.0f\<close> and \<open>1.0f\<close>.\<close>

definition float_zero :: float32 where "float_zero = 0"
definition float_minus_one :: float32 where "float_minus_one = 0xBF800000"
definition float_one :: float32 where "float_one = 0x3F800000"

text \<open>\<open>std::clamp(v, lo, hi)\<close>: \<open>lo\<close> if \<open>v < lo\<close>, else \<open>hi\<close> if \<open>hi < v\<close>, else \<open>v\<close>.\<close>

definition std_clamp :: "float32 \<Rightarrow> float32 \<Rightarrow> float32 \<Rightarrow> float32" where
  "std_clamp v lo hi = (if float_less v lo then lo else if float_less hi v then hi else v)"

text \<open>\<open>static_cast<int>(f)\<close> discards the fractional part (truncation toward zero). C++
  defines the conversion only when the truncated value fits an \<open>int\<close>.\<close>

definition float_to_int :: "float32 \<Rightarrow> int" where
  "float_to_int f = (if 0 \<le> float_val f then \<lfloor>float_val f\<rfloor> else \<lceil>float_val f\<rceil>)"

subsection \<open>WriteWAVHeader\<close>

definition RIFF_HEADER :: "byte list" where "RIFF_HEADER = bytes_of ''RIFF''"
definition WAVE_FORMAT :: "byte list" where "WAVE_FORMAT = bytes_of ''WAVE''"
definition FMT_CHUNK :: "byte list" where "FMT_CHUNK = bytes_of ''fmt ''"
definition DATA_CHUNK :: "byte list" where "DATA_CHUNK = bytes_of ''data''"
definition FORMAT_PCM :: "16 word" where "FORMAT_PCM = 1"
definition FORMAT_PCM_FLOAT :: "16 word" where "FORMAT_PCM_FLOAT = 3"
definition BITS_IN_BYTE :: int where "BITS_IN_BYTE = 8"
definition CHUNK_SIZE :: nat where "CHUNK_SIZE = 4096"

text \<open>A value reduced to the range of a 32-bit \<open>int\<close>, from \<open>- 2 ^ 31\<close> up to
  \<open>2 ^ 31 - 1\<close>.\<close>

definition int32 :: "int \<Rightarrow> int" where
  "int32 x = (x + 2147483648) mod 4294967296 - 2147483648"

text \<open>The quotient of two C \<open>int\<close>s is truncated toward zero.\<close>

definition int_div :: "int \<Rightarrow> int \<Rightarrow> int" where
  "int_div a b = (if (a < 0) = (b < 0) then \<bar>a\<bar> div \<bar>b\<bar> else - (\<bar>a\<bar> div \<bar>b\<bar>))"

text \<open>The byte rate is computed in \<open>uint64_t\<close> (the \<open>int\<close> operands are converted to it) and
  then cast to \<open>uint32_t\<close>; the block alignment is computed in \<open>int\<close> (a 32-bit product of
  two \<open>int\<close>s, divided by 8) and cast to \<open>uint16_t\<close>; \<open>36 + dataSize\<close> is computed in \<open>size_t\<close> and cast to \<open>uint32_t\<close>. The two
  \<open>catch\<close> clauses of the source are dead (no write throws).\<close>

definition WriteWAVHeader ::
  "ofstream \<Rightarrow> int \<Rightarrow> int \<Rightarrow> nat \<Rightarrow> int \<Rightarrow> FMOD_SOUND_FORMAT \<Rightarrow> bool \<times> ofstream" where
  "WriteWAVHeader file sampleRate channels dataSize bitsPerSample format =
     (if \<not> is_open file then (False, file)
      else (True, ofs_write file
        (RIFF_HEADER
         @ le32 (of_nat (36 + dataSize))
         @ WAVE_FORMAT
         @ FMT_CHUNK
         @ le32 16
         @ le16 (if format = FMOD_SOUND_FORMAT_PCMFLOAT then FORMAT_PCM_FLOAT else FORMAT_PCM)
         @ le16 (of_int channels)
         @ le32 (of_int sampleRate)
         @ le32 (ucast (((of_int sampleRate :: 64 word) * of_int channels * of_int bitsPerSample)
                        div of_int BITS_IN_BYTE))
         @ le16 (of_int (int_div (int32 (channels * bitsPerSample)) BITS_IN_BYTE))
         @ le16 (of_int bitsPerSample)
         @ DATA_CHUNK
         @ le32 (of_nat dataSize))))"

subsection \<open>GetSoundInfo\<close>

text \<open>A sub-sound handle, as the program uses it: the answers of the engine's queries, the
  \<open>readData\<close> call, and the engine's read state. \<open>readData e n\<close> is a call with a buffer
  of \<open>n\<close> bytes in read state \<open>e\<close>: it answers the result code, the bytes it delivered (their
  number is \<open>bytesRead\<close>) and the next read state. The engine is a black box, so these are
  parameters of the model.\<close>

record 'e Sound =
  seekData :: FMOD_RESULT
  getFormat :: "FMOD_RESULT \<times> FMOD_SOUND_FORMAT \<times> int \<times> int"
  getDefaults :: "FMOD_RESULT \<times> float32 \<times> int"
  getLength_PCMBYTES :: "FMOD_RESULT \<times> 32 word"
  getLength_MS :: "FMOD_RESULT \<times> 32 word"
  getName :: "FMOD_RESULT \<times> string"
  readData :: "'e \<Rightarrow> nat \<Rightarrow> FMOD_RESULT \<times> byte list \<times> 'e"
  stream :: 'e

record SoundInfo =
  format :: FMOD_SOUND_FORMAT
  sampleRate :: int
  bitsPerSample :: int
  channels :: int
  soundLengthBytes :: "32 word"
  lengthMs :: "32 word"
  subSoundName :: string

text \<open>The queries in the source's order; each failing query but the name throws. A name that
  cannot be read leaves the zero-initialised buffer, the empty name.\<close>

definition GetSoundInfo :: "'e Sound \<Rightarrow> exn + SoundInfo" where
  "GetSoundInfo subSound =
     (case getFormat subSound of (r1, fmt, chans, bits) \<Rightarrow>
      if r1 \<noteq> FMOD_OK then Inl (runtime_error ''FMOD::Sound::getFormat failed for sub-sound'')
      else case getDefaults subSound of (r2, defaultFrequency, defaultPriority) \<Rightarrow>
      if r2 \<noteq> FMOD_OK then Inl (runtime_error ''FMOD::Sound::getDefaults failed for sub-sound'')
      else case getLength_PCMBYTES subSound of (r3, len_bytes) \<Rightarrow>
      if r3 \<noteq> FMOD_OK then Inl (runtime_error ''FMOD::Sound::getLength (bytes) failed for sub-sound'')
      else case getLength_MS subSound of (r4, len_ms) \<Rightarrow>
      if r4 \<noteq> FMOD_OK then Inl (runtime_error ''FMOD::Sound::getLength (ms) failed for sub-sound'')
      else case getName subSound of (r5, name) \<Rightarrow>
      Inr \<lparr>format = fmt,
           sampleRate = (if float_less float_zero defaultFrequency
                         then float_to_int defaultFrequency else 44100),
           bitsPerSample = bits,
           channels = chans,
           soundLengthBytes = len_bytes,
           lengthMs = len_ms,
           subSoundName = (if r5 = FMOD_OK then name else [])\<rparr>)"

subsection \<open>The transcription loops\<close>

text \<open>The state the three loops share: the engine's read state, the output file, the
  running total (an \<open>unsigned int\<close>) and the chunk counter of the log. The chunk buffer is
  not part of the state: each loop uses only the first \<open>bytesRead\<close> bytes of it, which are
  the bytes the engine delivered in that round. An engine that honours its interface
  delivers at most \<open>bytesToRead\<close> bytes; the properties below say where they need that.\<close>

record 'e transfer =
  engine :: 'e
  wavFile :: ofstream
  totalBytesRead :: nat
  chunkCount :: int

text \<open>\<open>WriteAudioDataChunk<BufferType>\<close> (8, 16 and 32 bit integer PCM, and the fallback).
  The buffer has \<open>CHUNK_SIZE / sizeof(BufferType)\<close> elements, 4096 bytes for each of the
  three instances, so the instances do not differ. The first argument is the fuel: the
  number of rounds the loop may still run. \<open>lengthBytes\<close> is the parameter
  \<open>soundLengthBytes\<close> (a \<open>size_t\<close>) of the source.\<close>

primrec WriteAudioDataChunk ::
  "nat \<Rightarrow> ('e \<Rightarrow> nat \<Rightarrow> FMOD_RESULT \<times> byte list \<times> 'e) \<Rightarrow> nat \<Rightarrow> 'e transfer
     \<Rightarrow> bool option \<times> 'e transfer" where
  "WriteAudioDataChunk 0 rd lengthBytes s =
     (if totalBytesRead s < lengthBytes then (None, s) else (Some True, s))"
| "WriteAudioDataChunk (Suc fuel) rd lengthBytes s =
     (if totalBytesRead s < lengthBytes then
        (let bytesToRead = min CHUNK_SIZE ((lengthBytes - totalBytesRead s) mod 2 ^ 32)
         in case rd (engine s) bytesToRead of (fmodSystemResult, buffer, e') \<Rightarrow>
           if fmodSystemResult \<noteq> FMOD_OK
           then (Some False, s\<lparr>engine := e', chunkCount := chunkCount s + 1\<rparr>)
           else WriteAudioDataChunk fuel rd lengthBytes
                  (s\<lparr>engine := e',
                     wavFile := ofs_write (wavFile s) buffer,
                     totalBytesRead := (totalBytesRead s + length buffer) mod 2 ^ 32,
                     chunkCount := chunkCount s + 1\<rparr>))
      else (Some True, s))"

text \<open>The inner loop of \<open>WritePCM24DataChunk\<close>:
  \<^verbatim>\<open>for (unsigned int i = 0; i < bytesRead; i += 3) if (i + 2 < bytesRead) { write 3 bytes }\<close>\<close>

function pcm24_for :: "byte list \<Rightarrow> nat \<Rightarrow> nat \<Rightarrow> ofstream \<Rightarrow> ofstream" where
  "pcm24_for buffer bytesRead i file =
     (if i < bytesRead then
        pcm24_for buffer bytesRead (i + 3)
          (if i + 2 < bytesRead
           then ofs_write (ofs_write (ofs_write file [buffer ! i]) [buffer ! (i + 1)])
                  [buffer ! (i + 2)]
           else file)
      else file)"
  by pat_completeness auto
termination
  by (relation "measure (\<lambda>(buffer, bytesRead, i, file). bytesRead - i)") auto

declare pcm24_for.simps [simp del]

primrec WritePCM24DataChunk ::
  "nat \<Rightarrow> ('e \<Rightarrow> nat \<Rightarrow> FMOD_RESULT \<times> byte list \<times> 'e) \<Rightarrow> nat \<Rightarrow> 'e transfer
     \<Rightarrow> bool option \<times> 'e transfer" where
  "WritePCM24DataChunk 0 rd lengthBytes s =
     (if totalBytesRead s < lengthBytes then (None, s) else (Some True, s))"
| "WritePCM24DataChunk (Suc fuel) rd lengthBytes s =
     (if totalBytesRead s < lengthBytes then
        (let bytesToRead = min CHUNK_SIZE ((lengthBytes - totalBytesRead s) mod 2 ^ 32)
         in case rd (engine s) bytesToRead of (fmodSystemResult, buffer, e') \<Rightarrow>
           if fmodSystemResult \<noteq> FMOD_OK
           then (Some False, s\<lparr>engine := e', chunkCount := chunkCount s + 1\<rparr>)
           else WritePCM24DataChunk fuel rd lengthBytes
                  (s\<lparr>engine := e',
                     wavFile := pcm24_for buffer (length buffer) 0 (wavFile s),
                     totalBytesRead := (totalBytesRead s + length buffer) mod 2 ^ 32,
                     chunkCount := chunkCount s + 1\<rparr>))
      else (Some True, s))"

text \<open>The clamping loop of \<open>WritePCMFloatDataChunk\<close>:
  \<^verbatim>\<open>for (int i = 0; i < bytesRead / sizeof(float); ++i) floatBuffer[i] = std::clamp(floatBuffer[i], -1.0f, 1.0f);\<close>
  \<open>floatBuffer[i]\<close> is the four bytes from offset \<open>4 * i\<close> of the buffer.\<close>

definition float_store :: "byte list \<Rightarrow> nat \<Rightarrow> float32 \<Rightarrow> byte list" where
  "float_store buffer i v = take (4 * i) buffer @ le32 v @ drop (4 * i + 4) buffer"

function clamp_for :: "byte list \<Rightarrow> nat \<Rightarrow> nat \<Rightarrow> byte list" where
  "clamp_for floatBuffer bytesRead i =
     (if i < bytesRead div 4 then
        clamp_for (float_store floatBuffer i
                     (std_clamp (u32_at floatBuffer (4 * i)) float_minus_one float_one))
          bytesRead (i + 1)
      else floatBuffer)"
  by pat_completeness auto
termination
  by (relation "measure (\<lambda>(floatBuffer, bytesRead, i). bytesRead div 4 - i)") auto

declare clamp_for.simps [simp del]

primrec WritePCMFloatDataChunk ::
  "nat \<Rightarrow> ('e \<Rightarrow> nat \<Rightarrow> FMOD_RESULT \<times> byte list \<times> 'e) \<Rightarrow> nat \<Rightarrow> 'e transfer
     \<Rightarrow> bool option \<times> 'e transfer" where
  "WritePCMFloatDataChunk 0 rd lengthBytes s =
     (if totalBytesRead s < lengthBytes then (None, s) else (Some True, s))"
| "WritePCMFloatDataChunk (Suc fuel) rd lengthBytes s =
     (if totalBytesRead s < lengthBytes then
        (let bytesToRead = min CHUNK_SIZE ((lengthBytes - totalBytesRead s) mod 2 ^ 32)
         in case rd (engine s) bytesToRead of (fmodSystemResult, floatBuffer, e') \<Rightarrow>
           if fmodSystemResult \<noteq> FMOD_OK
           then (Some False, s\<lparr>engine := e', chunkCount := chunkCount s + 1\<rparr>)
           else WritePCMFloatDataChunk fuel rd lengthBytes
                  (s\<lparr>engine := e',
                     wavFile := ofs_write (wavFile s)
                                  (clamp_for floatBuffer (length floatBuffer) 0),
                     totalBytesRead := (totalBytesRead s + length floatBuffer) mod 2 ^ 32,
                     chunkCount := chunkCount s + 1\<rparr>))
      else (Some True, s))"

subsection \<open>ProcessSubSound\<close>

text \<open>The result is \<open>None\<close> while the transcription loop is still running, \<open>Some (Inl e)\<close>
  when \<open>e\<close> was thrown and \<open>Some (Inr ())\<close> when the function returned; the second component
  is the output file, if one was created. \<open>opens\<close> says whether the output file can be
  opened. The name of the output file (\<open>SanitizeFileName\<close>) has no influence on what is
  written to it and is left out.\<close>

definition ProcessSubSound ::
  "nat \<Rightarrow> 'e Sound \<Rightarrow> bool \<Rightarrow> (exn + unit) option \<times> ofstream option" where
  "ProcessSubSound fuel subSound opens =
     (case CheckFMODResult (seekData subSound) ''FMOD::Sound::seekData failed for sub-sound'' of
        Inl e \<Rightarrow> (Some (Inl e), None)
      | Inr _ \<Rightarrow>
     (case GetSoundInfo subSound of
        Inl e \<Rightarrow> (Some (Inl e), None)
      | Inr soundInfo \<Rightarrow>
     if \<not> opens then (Some (Inl (runtime_error ''Failed to open output WAV file'')), None)
     else
     (case WriteWAVHeader \<lparr>is_open = True, content = []\<rparr> (sampleRate soundInfo)
             (channels soundInfo) (unat (soundLengthBytes soundInfo))
             (bitsPerSample soundInfo) (format soundInfo) of
        (headerWritten, wav) \<Rightarrow>
     if \<not> headerWritten
     then (Some (Inl (runtime_error ''Failed to write WAV header'')), Some wav)
     else
     (let s0 = \<lparr>engine = stream subSound, wavFile = wav, totalBytesRead = 0, chunkCount = 0\<rparr>;
          len = unat (soundLengthBytes soundInfo);
          r = (case format soundInfo of
                 FMOD_SOUND_FORMAT_PCM8 \<Rightarrow> WriteAudioDataChunk fuel (readData subSound) len s0
               | FMOD_SOUND_FORMAT_PCM16 \<Rightarrow> WriteAudioDataChunk fuel (readData subSound) len s0
               | FMOD_SOUND_FORMAT_PCM24 \<Rightarrow> WritePCM24DataChunk fuel (readData subSound) len s0
               | FMOD_SOUND_FORMAT_PCM32 \<Rightarrow> WriteAudioDataChunk fuel (readData subSound) len s0
               | FMOD_SOUND_FORMAT_PCMFLOAT \<Rightarrow>
                   WritePCMFloatDataChunk fuel (readData subSound) len s0
               | _ \<Rightarrow> WriteAudioDataChunk fuel (readData subSound) len s0)
      in case fst r of
           None \<Rightarrow> (None, Some (wavFile (snd r)))
         | Some writeSuccess \<Rightarrow>
             if \<not> writeSuccess
             then (Some (Inl (runtime_error ''Failed to write audio data to WAV file'')),
                   Some (wavFile (snd r)))
             else (Some (Inr ()), Some (wavFile (snd r)))))))"

subsection \<open>Engines used as examples\<close>

text \<open>An engine that delivers full chunks: its read state is the data not yet delivered, each
  call delivers as much of it as the buffer takes, and a call after the end of the data
  fails.\<close>

definition full_read :: "byte list \<Rightarrow> nat \<Rightarrow> FMOD_RESULT \<times> byte list \<times> byte list" where
  "full_read e n = (if e = [] then (FMOD_ERR 0, [], []) else (FMOD_OK, take n e, drop n e))"


text \<open>An engine that delivers its data in given pieces, one piece per call (the read state
  is the list of pieces still to come).\<close>

definition piece_read ::
  "byte list list \<Rightarrow> nat \<Rightarrow> FMOD_RESULT \<times> byte list \<times> byte list list" where
  "piece_read e n = (case e of [] \<Rightarrow> (FMOD_ERR 0, [], []) | p # ps \<Rightarrow> (FMOD_OK, take n p, ps))"

text \<open>An engine that delivers whole float samples: the read state is the list of samples
  not yet delivered, and each call delivers as many of them as the buffer takes.\<close>

definition sample_read ::
  "float32 list \<Rightarrow> nat \<Rightarrow> FMOD_RESULT \<times> byte list \<times> float32 list" where
  "sample_read e n =
     (if e = [] then (FMOD_ERR 0, [], [])
      else (FMOD_OK, concat (map le32 (take (n div 4) e)), drop (n div 4) e))"

subsection \<open>Notions used to state the properties\<close>

text \<open>The three loops are one loop with three ways of writing a chunk.\<close>

primrec chunk_loop ::
  "(byte list \<Rightarrow> ofstream \<Rightarrow> ofstream) \<Rightarrow> nat
     \<Rightarrow> ('e \<Rightarrow> nat \<Rightarrow> FMOD_RESULT \<times> byte list \<times> 'e) \<Rightarrow> nat \<Rightarrow> 'e transfer
     \<Rightarrow> bool option \<times> 'e transfer" where
  "chunk_loop put 0 rd lengthBytes s =
     (if totalBytesRead s < lengthBytes then (None, s) else (Some True, s))"
| "chunk_loop put (Suc fuel) rd lengthBytes s =
     (if totalBytesRead s < lengthBytes then
        (let bytesToRead = min CHUNK_SIZE ((lengthBytes - totalBytesRead s) mod 2 ^ 32)
         in case rd (engine s) bytesToRead of (fmodSystemResult, buffer, e') \<Rightarrow>
           if fmodSystemResult \<noteq> FMOD_OK
           then (Some False, s\<lparr>engine := e', chunkCount := chunkCount s + 1\<rparr>)
           else chunk_loop put fuel rd lengthBytes
                  (s\<lparr>engine := e',
                     wavFile := put buffer (wavFile s),
                     totalBytesRead := (totalBytesRead s + length buffer) mod 2 ^ 32,
                     chunkCount := chunkCount s + 1\<rparr>))
      else (Some True, s))"

definition put_raw :: "byte list \<Rightarrow> ofstream \<Rightarrow> ofstream" where
  "put_raw buffer f = ofs_write f buffer"

definition put_pcm24 :: "byte list \<Rightarrow> ofstream \<Rightarrow> ofstream" where
  "put_pcm24 buffer f = pcm24_for buffer (length buffer) 0 f"

definition put_float :: "byte list \<Rightarrow> ofstream \<Rightarrow> ofstream" where
  "put_float buffer f = ofs_write f (clamp_for buffer (length buffer) 0)"


text \<open>No read delivers more bytes than the buffer holds.\<close>

definition reads_bounded :: "('e \<Rightarrow> nat \<Rightarrow> FMOD_RESULT \<times> byte list \<times> 'e) \<Rightarrow> bool" where
  "reads_bounded rd = (\<forall>e n. case rd e n of (r, bs, e') \<Rightarrow> length bs \<le> n)"

text \<open>Every read delivers a whole number of 4-byte samples.\<close>

definition reads_aligned :: "('e \<Rightarrow> nat \<Rightarrow> FMOD_RESULT \<times> byte list \<times> 'e) \<Rightarrow> bool" where
  "reads_aligned rd = (\<forall>e n. case rd e n of (r, bs, e') \<Rightarrow> 4 dvd length bs)"

text \<open>The float samples of a byte sequence are its aligned 4-byte groups; a sample is in
  range when its value lies in \<open>[-1, 1]\<close>.\<close>

definition in_unit_range :: "float32 \<Rightarrow> bool" where
  "in_unit_range w = (- 1 \<le> float_val w \<and> float_val w \<le> 1)"

definition samples_clamped :: "byte list \<Rightarrow> bool" where
  "samples_clamped bs =
     (\<forall>j < length bs div 4. isnan (u32_at bs (4 * j)) \<or> in_unit_range (u32_at bs (4 * j)))"

text \<open>What a transfer has added to its output file.\<close>

definition written_since :: "ofstream \<Rightarrow> ofstream \<Rightarrow> byte list" where
  "written_since f f' = drop (length (content f)) (content f')"

text \<open>A way of writing a chunk that only appends to the file, and one that stores as many
  bytes as were read.\<close>

definition appends :: "(byte list \<Rightarrow> ofstream \<Rightarrow> ofstream) \<Rightarrow> bool" where
  "appends put = (\<forall>b f. is_open (put b f) = is_open f
      \<and> length (content f) \<le> length (content (put b f))
      \<and> take (length (content f)) (content (put b f)) = content f)"

definition stores_all :: "(byte list \<Rightarrow> ofstream \<Rightarrow> ofstream) \<Rightarrow> bool" where
  "stores_all put = (\<forall>b f. is_open f \<longrightarrow>
      length (content (put b f)) = length (content f) + length b)"

text \<open>The way the \<open>switch\<close> of \<open>ProcessSubSound\<close> writes a chunk, and the state in which it
  starts the loop: the header written to the new file, nothing read yet.\<close>

definition put_of :: "FMOD_SOUND_FORMAT \<Rightarrow> byte list \<Rightarrow> ofstream \<Rightarrow> ofstream" where
  "put_of fmt = (if fmt = FMOD_SOUND_FORMAT_PCM24 then put_pcm24
                 else if fmt = FMOD_SOUND_FORMAT_PCMFLOAT then put_float else put_raw)"

definition start_state :: "'e Sound \<Rightarrow> SoundInfo \<Rightarrow> 'e transfer" where
  "start_state subSound soundInfo =
     \<lparr>engine = stream subSound,
      wavFile = snd (WriteWAVHeader \<lparr>is_open = True, content = []\<rparr> (sampleRate soundInfo)
                       (channels soundInfo) (unat (soundLengthBytes soundInfo))
                       (bitsPerSample soundInfo) (format soundInfo)),
      totalBytesRead = 0, chunkCount = 0\<rparr>"

text \<open>The bytes of the output file of a run of \<open>ProcessSubSound\<close> (none if no file was
  created).\<close>

definition output_of :: "(exn + unit) option \<times> ofstream option \<Rightarrow> byte list" where
  "output_of r = (case snd r of None \<Rightarrow> [] | Some wav \<Rightarrow> content wav)"

text \<open>A mono sub-sound without a name tag, of the given format, bit depth, default
  frequency and sample data, read through the full-chunk engine.\<close>

definition example_sound ::
  "FMOD_SOUND_FORMAT \<Rightarrow> int \<Rightarrow> float32 \<Rightarrow> byte list \<Rightarrow> byte list Sound" where
  "example_sound fmt bits freq data =
     \<lparr>seekData = FMOD_OK,
      getFormat = (FMOD_OK, fmt, 1, bits),
      getDefaults = (FMOD_OK, freq, 128),
      getLength_PCMBYTES = (FMOD_OK, of_nat (length data)),
      getLength_MS = (FMOD_OK, 0),
      getName = (FMOD_ERR_TAGNOTFOUND, []),
      readData = full_read,
      stream = data\<rparr>"

subsection \<open>Input streams\<close>

text \<open>A \<open>std::ifstream\<close> opened in binary mode: the bytes of the file, the position of the
  stream buffer, the state flags \<open>eofbit\<close> and \<open>failbit\<close>, and the count of the last
  unformatted read (\<open>gcount\<close>). The operations follow the C++ standard library:
  \<^item> every input function first builds a sentry; when the stream is not \<open>good()\<close> the sentry
    sets \<open>failbit\<close> and the function does nothing else;
  \<^item> \<open>peek\<close> answers the next byte (0 to 255) without consuming it, or sets \<open>eofbit\<close> and
    answers \<open>EOF\<close> at the end of the file;
  \<^item> \<open>read(buf, n)\<close> extracts up to \<open>n\<close> bytes; when the file ends before \<open>n\<close> bytes it
    sets \<open>eofbit\<close> and \<open>failbit\<close>;
  \<^item> \<open>seekg\<close> first clears \<open>eofbit\<close> and then, unless \<open>fail()\<close> holds, moves the
    position; with \<open>failbit\<close> set it does not move;
  \<^item> \<open>tellg\<close> answers \<open>-1\<close> when \<open>fail()\<close> holds, and the position otherwise.
  The program never calls \<open>clear()\<close> and never enables exceptions.\<close>

record ifstream =
  fdata :: "byte list"
  gpos :: nat
  eofbit :: bool
  failbit :: bool
  gcount :: nat

definition good :: "ifstream \<Rightarrow> bool" where
  "good s = (\<not> eofbit s \<and> \<not> failbit s)"

definition EOF :: int where "EOF = - 1"

definition tellg :: "ifstream \<Rightarrow> int" where
  "tellg s = (if failbit s then - 1 else int (gpos s))"

definition peek :: "ifstream \<Rightarrow> int \<times> ifstream" where
  "peek s =
     (if \<not> good s then (EOF, s\<lparr>failbit := True, gcount := 0\<rparr>)
      else if gpos s < length (fdata s) then (uint (fdata s ! gpos s), s\<lparr>gcount := 0\<rparr>)
      else (EOF, s\<lparr>eofbit := True, gcount := 0\<rparr>))"

definition read :: "ifstream \<Rightarrow> nat \<Rightarrow> byte list \<times> ifstream" where
  "read s n =
     (if \<not> good s then ([], s\<lparr>failbit := True, gcount := 0\<rparr>)
      else let got = take n (drop (gpos s) (fdata s))
           in if length got < n
              then (got, s\<lparr>gpos := gpos s + length got, eofbit := True, failbit := True,
                          gcount := length got\<rparr>)
              else (got, s\<lparr>gpos := gpos s + n, gcount := n\<rparr>))"

text \<open>\<open>seekg(off, std::ios::cur)\<close> and \<open>seekg(p)\<close>. A seek to a negative position fails.\<close>

definition seekg_cur :: "ifstream \<Rightarrow> int \<Rightarrow> ifstream" where
  "seekg_cur s off =
     (let s1 = s\<lparr>eofbit := False\<rparr>
      in if failbit s1 then s1
         else if int (gpos s1) + off < 0 then s1\<lparr>failbit := True\<rparr>
         else s1\<lparr>gpos := nat (int (gpos s1) + off)\<rparr>)"

definition seekg :: "ifstream \<Rightarrow> int \<Rightarrow> ifstream" where
  "seekg s p =
     (let s1 = s\<lparr>eofbit := False\<rparr>
      in if failbit s1 then s1
         else if p < 0 then s1\<lparr>failbit := True\<rparr>
         else s1\<lparr>gpos := nat p\<rparr>)"

subsection \<open>FindFSB5Signature\<close>

definition FSB5 :: "byte list" where "FSB5 = bytes_of ''FSB5''"

text \<open>The \<open>while\<close> loop. The result is \<open>True\<close> when the loop was left by \<open>return true\<close>, and
  \<open>False\<close> when it was left through its condition or by \<open>break\<close>.\<close>

function FindFSB5Signature_loop :: "ifstream \<Rightarrow> bool \<times> ifstream" where
  "FindFSB5Signature_loop reader =
     (case peek reader of (c, r1) \<Rightarrow>
        if c = EOF then (False, r1)
        else case read r1 4 of (signature, r2) \<Rightarrow>
          if gcount r2 = 4 then
            if signature = FSB5 then (True, seekg_cur r2 (- 4))
            else FindFSB5Signature_loop (seekg_cur r2 (- 3))
          else (False, r2))"
  by pat_completeness auto
termination
  by (relation "measure (\<lambda>s. length (fdata s) - gpos s)")
    (auto simp: peek_def read_def seekg_cur_def good_def EOF_def Let_def split: if_splits)

declare FindFSB5Signature_loop.simps [simp del]

definition FindFSB5Signature :: "ifstream \<Rightarrow> bool \<times> ifstream" where
  "FindFSB5Signature reader =
     (let startPosition = tellg reader
      in case FindFSB5Signature_loop reader of (found, r) \<Rightarrow>
           if found then (True, r) else (False, seekg r startPosition))"

text \<open>The signature stands at offset \<open>k\<close> of a byte sequence.\<close>

definition sig_at :: "byte list \<Rightarrow> nat \<Rightarrow> bool" where
  "sig_at d k = (take 4 (drop k d) = FSB5)"

subsection \<open>ExtractFSBsFromBankFile\<close>

text \<open>\<open>std::to_string\<close> of an \<open>int\<close>: its decimal digits, with a minus sign when negative.\<close>

function decimal :: "nat \<Rightarrow> string" where
  "decimal n = (if n < 10 then [''0123456789'' ! n]
                else decimal (n div 10) @ [''0123456789'' ! (n mod 10)])"
  by pat_completeness auto
termination
  by (relation "measure (\<lambda>n. n)") auto

declare decimal.simps [simp del]

definition to_string :: "int \<Rightarrow> string" where
  "to_string i = (if i < 0 then CHR ''-'' # decimal (nat (- i)) else decimal (nat i))"

text \<open>All temporary files are created in the one temporary directory, so the path
  \<open>tempPath / tempFileName\<close> is represented by \<open>tempFileName\<close>. The file system maps the
  name of a temporary file to its bytes.\<close>

type_synonym path = string
type_synonym files = "path \<Rightarrow> byte list option"

text \<open>How a run of the extraction loop ends: the fuel is used up, or the code computes with a
  header field it never read (the \<open>uint32_t\<close> variables are not initialised, and a \<open>read\<close>
  that hits the end of the file leaves them so), or the loop returns.\<close>

datatype 'a outcome = Out_of_fuel | Indeterminate | Returns 'a

text \<open>The \<open>while (FindFSB5Signature(bankFileStream))\<close> loop. \<open>creatable\<close> says which temporary
  files can be opened for writing. The fuel bounds the number of signatures handled: the
  loop handles the same signature again when the temporary file cannot be created or the
  computed size is 0, since the stream then still stands on it. \<open>fsbData\<close> is a
  zero-initialised vector of \<open>fsbFileSize\<close> bytes, so a short \<open>read\<close> leaves zeros at its
  end, and all of it is written. The allocation of the vector is taken to succeed; the
  two \<open>catch\<close> clauses are then dead.\<close>

primrec ExtractFSBs_loop ::
  "nat \<Rightarrow> (path \<Rightarrow> bool) \<Rightarrow> string \<Rightarrow> ifstream \<Rightarrow> int \<Rightarrow> path list \<Rightarrow> files
     \<Rightarrow> (path list \<times> files) outcome" where
  "ExtractFSBs_loop 0 creatable baseBankFileName bankFileStream fsbCount tempFsbFiles fs =
     (case FindFSB5Signature bankFileStream of (found, s1) \<Rightarrow>
        if \<not> found then Returns (tempFsbFiles, fs) else Out_of_fuel)"
| "ExtractFSBs_loop (Suc fuel) creatable baseBankFileName bankFileStream fsbCount tempFsbFiles fs =
     (case FindFSB5Signature bankFileStream of (found, s1) \<Rightarrow>
        if \<not> found then Returns (tempFsbFiles, fs)
        else
          let fsbCount1 = fsbCount + 1;
              tempFileName =
                (if fsbCount1 > 1
                 then baseBankFileName @ ''_'' @ to_string fsbCount1 @ ''.fsb''
                 else baseBankFileName @ ''.fsb'');
              tempFsbFiles1 = tempFsbFiles @ [tempFileName]
          in if \<not> creatable tempFileName
             then ExtractFSBs_loop fuel creatable baseBankFileName s1 fsbCount1
                    (butlast tempFsbFiles1) fs
             else
               case read s1 4 of (fsbSign, s2) \<Rightarrow>
               case read s2 4 of (version, s3) \<Rightarrow>
               case read s3 4 of (numSamples, s4) \<Rightarrow>
               case read s4 4 of (shdrSize, s5) \<Rightarrow>
               case read s5 4 of (nameSize, s6) \<Rightarrow>
               case read s6 4 of (dataSize, s7) \<Rightarrow>
               if length shdrSize < 4 \<or> length nameSize < 4 \<or> length dataSize < 4
               then Indeterminate
               else
                 let fsbFileSize =
                       unat ((0x3C :: 32 word) + u32_at shdrSize 0 + u32_at nameSize 0
                             + u32_at dataSize 0);
                     s8 = seekg_cur s7 (- 24)
                 in case read s8 fsbFileSize of (got, s9) \<Rightarrow>
                      ExtractFSBs_loop fuel creatable baseBankFileName s9 fsbCount1 tempFsbFiles1
                        (fs(tempFileName \<mapsto> got @ replicate (fsbFileSize - length got) 0)))"

text \<open>\<open>bankOpens\<close> says whether the bank file can be opened, \<open>bank\<close> is its content.\<close>

definition ExtractFSBsFromBankFile ::
  "nat \<Rightarrow> (path \<Rightarrow> bool) \<Rightarrow> bool \<Rightarrow> string \<Rightarrow> byte list \<Rightarrow> files
     \<Rightarrow> (path list \<times> files) outcome" where
  "ExtractFSBsFromBankFile fuel creatable bankOpens baseBankFileName bank fs =
     (if \<not> bankOpens then Returns ([], fs)
      else ExtractFSBs_loop fuel creatable baseBankFileName
             \<lparr>fdata = bank, gpos = 0, eofbit = False, failbit = False, gcount = 0\<rparr> 0 [] fs)"

text \<open>The length the header at offset \<open>k\<close> declares, as an unbounded number.\<close>

definition fsb_length :: "byte list \<Rightarrow> nat \<Rightarrow> nat" where
  "fsb_length d k = 60 + unat (u32_at d (k + 12)) + unat (u32_at d (k + 16))
                    + unat (u32_at d (k + 20))"

text \<open>The offsets at which the signature stands.\<close>

definition sig_positions :: "byte list \<Rightarrow> nat list" where
  "sig_positions d = filter (sig_at d) [0 ..< length d]"

text \<open>A sub-container of 60 bytes (no stream headers, names or data) and one whose header
  declares 24 data bytes, used as examples.\<close>

definition fsb60 :: "byte list" where
  "fsb60 = FSB5 @ le32 1 @ le32 0 @ le32 0 @ le32 0 @ le32 0 @ replicate 36 0"

definition fsb84 :: "byte list" where
  "fsb84 = FSB5 @ le32 1 @ le32 0 @ le32 0 @ le32 0 @ le32 24 @ replicate 60 0"

text \<open>Two banks used as examples. In the first, a junk byte, a sub-container of 84 bytes, a
  junk byte and a sub-container of 60 bytes follow one another. In the second the
  signatures stand at offsets 1 and 30, and the header at offset 1 declares 60 bytes, so
  the second signature lies inside the extent the first header declares.\<close>

definition example_bank :: "byte list" where
  "example_bank = [65] @ fsb84 @ [66] @ fsb60"

definition overlapping_bank :: "byte list" where
  "overlapping_bank = [65] @ take 24 fsb60 @ replicate 5 66 @ fsb60"


subsection \<open>main\<close>

text \<open>The model of \<open>main\<close> starts where the command line has been accepted (the usage
  errors return before anything is opened or created). The engine is a parameter: whether
  its initialisation succeeds, the result of \<open>createSound\<close> for a container, the result and
  count of \<open>getNumSubSounds\<close>, and for each sub-sound whether it is obtained and processed
  without an exception (\<open>getSubSound\<close> and \<open>ProcessSubSound\<close>, which the loop over the
  sub-sounds wraps in \<open>try\<close>/\<open>catch\<close>; each is taken to return).\<close>

record engine_answers =
  systemInit :: FMOD_RESULT
  createSound :: "path \<Rightarrow> FMOD_RESULT"
  getNumSubSounds :: "path \<Rightarrow> FMOD_RESULT \<times> int"
  subSoundDone :: "path \<Rightarrow> nat \<Rightarrow> bool"

text \<open>What a run does, in order: the engine calls that load a container, the console
  messages, and the removals of temporary files.\<close>

datatype event =
    Load path
  | Processing_Start path
  | Sub_sound path nat bool
  | No_sub_sounds
  | No_FSB_found
  | Error_banner
  | Processing_End
  | Removed path

text \<open>The loop over \<open>filesToProcess\<close>. The constructor of \<open>FMODSound\<close> and the check of
  \<open>getNumSubSounds\<close> throw; nothing inside the loop catches these exceptions. The flag
  \<open>allSubSoundsProcessed\<close> is set and never read, so it is left out.\<close>

fun process_files ::
  "engine_answers \<Rightarrow> path list \<Rightarrow> event list \<Rightarrow> event list \<times> (exn + unit)" where
  "process_files eng [] tr = (tr, Inr ())"
| "process_files eng (currentInputFilePath # rest) tr =
     (if createSound eng currentInputFilePath \<noteq> FMOD_OK
      then (tr @ [Load currentInputFilePath],
            Inl (runtime_error ''FMOD::System::createSound failed''))
      else case getNumSubSounds eng currentInputFilePath of (r, numSubSounds) \<Rightarrow>
        if r \<noteq> FMOD_OK
        then (tr @ [Load currentInputFilePath],
              Inl (runtime_error ''FMOD::Sound::getNumSubSounds failed''))
        else process_files eng rest
               (tr @ [Load currentInputFilePath]
                @ (if numSubSounds > 0
                   then Processing_Start currentInputFilePath
                        # map (\<lambda>i. Sub_sound currentInputFilePath i
                                      (subSoundDone eng currentInputFilePath i))
                            [0 ..< nat numSubSounds]
                   else [No_sub_sounds])))"

text \<open>The deletion loop at the end of \<open>main\<close>: each temporary file that exists is removed.\<close>

fun delete_temp_files :: "path list \<Rightarrow> event list \<Rightarrow> files \<Rightarrow> event list \<times> files" where
  "delete_temp_files [] tr fs = (tr, fs)"
| "delete_temp_files (tempFile # rest) tr fs =
     (if fs tempFile \<noteq> None
      then delete_temp_files rest (tr @ [Removed tempFile]) (fs(tempFile := None))
      else delete_temp_files rest tr fs)"

text \<open>\<open>main\<close>: the exit status, what the run did, and the temporary directory afterwards.
  \<open>isBank\<close> says whether the input path ends in \<open>.bank\<close>, \<open>stem\<close> is the file name of
  the input without its extension; the fuel is that of the extraction loop. The \<open>catch\<close> clause prints the error banner, waits for a key and
  returns 1.\<close>

definition main_run ::
  "nat \<Rightarrow> engine_answers \<Rightarrow> (path \<Rightarrow> bool) \<Rightarrow> bool \<Rightarrow> bool \<Rightarrow> path \<Rightarrow> string
     \<Rightarrow> byte list \<Rightarrow> files \<Rightarrow> (int \<times> event list \<times> files) outcome" where
  "main_run fuel eng creatable isBank bankOpens inputFilePath stem bank fs =
     (if systemInit eng \<noteq> FMOD_OK then Returns (1, [Error_banner], fs)
      else if isBank then
        (case ExtractFSBsFromBankFile fuel creatable bankOpens stem bank fs of
           Out_of_fuel \<Rightarrow> Out_of_fuel
         | Indeterminate \<Rightarrow> Indeterminate
         | Returns (filesToProcess, fs1) \<Rightarrow>
             if filesToProcess = [] then Returns (0, [No_FSB_found], fs1)
             else (case process_files eng filesToProcess [] of
                     (tr, Inl e) \<Rightarrow> Returns (1, tr @ [Error_banner], fs1)
                   | (tr, Inr _) \<Rightarrow>
                       (case delete_temp_files filesToProcess (tr @ [Processing_End]) fs1 of
                          (tr1, fs2) \<Rightarrow> Returns (0, tr1, fs2))))
      else (case process_files eng [inputFilePath] [] of
              (tr, Inl e) \<Rightarrow> Returns (1, tr @ [Error_banner], fs)
            | (tr, Inr _) \<Rightarrow> Returns (0, tr @ [Processing_End], fs)))"


text \<open>The containers a run tried to load, in order.\<close>

fun loaded :: "event list \<Rightarrow> path list" where
  "loaded [] = []"
| "loaded (Load p # tr) = p # loaded tr"
| "loaded (e # tr) = loaded tr"

text \<open>An engine that loads every container but \<open>music.fsb\<close>, and one that loads every
  container; each container has one sub-sound, which is processed.\<close>

definition failing_engine :: engine_answers where
  "failing_engine =
     \<lparr>systemInit = FMOD_OK,
      createSound = (\<lambda>p. if p = ''music.fsb'' then FMOD_ERR 1 else FMOD_OK),
      getNumSubSounds = (\<lambda>p. (FMOD_OK, 1)),
      subSoundDone = (\<lambda>p i. True)\<rparr>"

definition working_engine :: engine_answers where
  "working_engine =
     \<lparr>systemInit = FMOD_OK,
      createSound = (\<lambda>p. FMOD_OK),
      getNumSubSounds = (\<lambda>p. (FMOD_OK, 1)),
      subSoundDone = (\<lambda>p i. True)\<rparr>"


section \<open>Part II: properties\<close>

subsection \<open>The WAV header\<close>

lemma le32_sum: "n mod 256 + 256 * (n div 256 mod 256) + 65536 * (n div 65536 mod 256)
    + 16777216 * (n div 16777216) = (n::nat)"
proof -
  define a where "a = n div 256"
  define b where "b = a div 256"
  define c where "c = b div 256"
  have e1: "n div 65536 = b" unfolding a_def b_def by (simp add: div_mult2_eq)
  have e2: "n div 16777216 = c" unfolding a_def b_def c_def by (simp add: div_mult2_eq)
  have "n = n mod 256 + 256 * a" "a = a mod 256 + 256 * b" "b = b mod 256 + 256 * c"
    unfolding a_def b_def c_def by simp_all
  thus ?thesis unfolding e1 e2 a_def [symmetric] by linarith
qed

lemma u32_at_le32: "u32_at (xs @ le32 w @ ys) (length xs) = w"
proof -
  have "unat w div 16777216 < 256"
    using unsigned_less [of w, where ?'a = nat] by simp
  hence "unat w div 16777216 mod 256 = unat w div 16777216" by simp
  thus ?thesis
    using le32_sum [of "unat w"]
    by (simp add: u32_at_def le32_def nth_append unat_of_nat)
qed

lemma u16_at_le16: "u16_at (xs @ le16 w @ ys) (length xs) = w"
proof -
  have "unat w div 256 < 256"
    using unsigned_less [of w, where ?'a = nat] by simp
  hence "unat w div 256 mod 256 = unat w div 256" by simp
  thus ?thesis
    by (simp add: u16_at_def le16_def nth_append unat_of_nat)
qed

lemma le16_length [simp]: "length (le16 w) = 2"
  by (simp add: le16_def)

lemma le32_length [simp]: "length (le32 w) = 4"
  by (simp add: le32_def)

lemma tag_lengths [simp]:
  "length RIFF_HEADER = 4" "length WAVE_FORMAT = 4" "length FMT_CHUNK = 4" "length DATA_CHUNK = 4"
  by (simp_all add: RIFF_HEADER_def WAVE_FORMAT_def FMT_CHUNK_def DATA_CHUNK_def bytes_of_def)

lemma u32_at_le32_off: "length xs = i \<Longrightarrow> u32_at (xs @ le32 w @ ys) i = w"
  using u32_at_le32 by blast

lemma u16_at_le16_off: "length xs = i \<Longrightarrow> u16_at (xs @ le16 w @ ys) i = w"
  using u16_at_le16 by blast

text \<open>The header as one list.\<close>

lemma WriteWAVHeader_open:
  assumes "is_open file"
  shows "WriteWAVHeader file sr ch ds bps fmt =
    (True, file\<lparr>content := content file @
         RIFF_HEADER
         @ le32 (of_nat (36 + ds))
         @ WAVE_FORMAT
         @ FMT_CHUNK
         @ le32 16
         @ le16 (if fmt = FMOD_SOUND_FORMAT_PCMFLOAT then FORMAT_PCM_FLOAT else FORMAT_PCM)
         @ le16 (of_int ch)
         @ le32 (of_int sr)
         @ le32 (ucast (((of_int sr :: 64 word) * of_int ch * of_int bps) div 8))
         @ le16 (of_int (int_div (int32 (ch * bps)) 8))
         @ le16 (of_int bps)
         @ DATA_CHUNK
         @ le32 (of_nat ds)\<rparr>)"
  using assms by (simp add: WriteWAVHeader_def ofs_write_def BITS_IN_BYTE_def)

lemma WriteWAVHeader_True_iff: "fst (WriteWAVHeader file sr ch ds bps fmt) = is_open file"
  by (simp add: WriteWAVHeader_def)


lemma header_fields:
  fixes pre t1 t2 t3 t4 rest :: "byte list" and riff fsz rate brate dsz :: "32 word"
    and code chn balign bits :: "16 word"
  assumes "length t1 = 4" "length t2 = 4" "length t3 = 4" "length t4 = 4"
  defines "H \<equiv> pre @ t1 @ le32 riff @ t2 @ t3 @ le32 fsz @ le16 code @ le16 chn @ le32 rate
                  @ le32 brate @ le16 balign @ le16 bits @ t4 @ le32 dsz @ rest"
  shows "length H = length pre + 44 + length rest"
    and "u32_at H (length pre + 4) = riff"
    and "u16_at H (length pre + 20) = code"
    and "u16_at H (length pre + 22) = chn"
    and "u32_at H (length pre + 24) = rate"
    and "u32_at H (length pre + 28) = brate"
    and "u16_at H (length pre + 32) = balign"
    and "u16_at H (length pre + 34) = bits"
    and "u32_at H (length pre + 40) = dsz"
proof -
  show "length H = length pre + 44 + length rest" using assms by (simp add: H_def)
  have "H = (pre @ t1) @ le32 riff @ (t2 @ t3 @ le32 fsz @ le16 code @ le16 chn @ le32 rate
                  @ le32 brate @ le16 balign @ le16 bits @ t4 @ le32 dsz @ rest)"
    by (simp add: H_def)
  thus "u32_at H (length pre + 4) = riff"
    using assms(1) by (simp only: u32_at_le32_off length_append)
  have "H = (pre @ t1 @ le32 riff @ t2 @ t3 @ le32 fsz) @ le16 code @ (le16 chn @ le32 rate
                  @ le32 brate @ le16 balign @ le16 bits @ t4 @ le32 dsz @ rest)"
    by (simp add: H_def)
  moreover have "length (pre @ t1 @ le32 riff @ t2 @ t3 @ le32 fsz) = length pre + 20"
    using assms by simp
  ultimately show "u16_at H (length pre + 20) = code"
    by (simp only: u16_at_le16_off)
  have "H = (pre @ t1 @ le32 riff @ t2 @ t3 @ le32 fsz @ le16 code) @ le16 chn @ (le32 rate
                  @ le32 brate @ le16 balign @ le16 bits @ t4 @ le32 dsz @ rest)"
    by (simp add: H_def)
  moreover have "length (pre @ t1 @ le32 riff @ t2 @ t3 @ le32 fsz @ le16 code) = length pre + 22"
    using assms by simp
  ultimately show "u16_at H (length pre + 22) = chn"
    by (simp only: u16_at_le16_off)
  have "H = (pre @ t1 @ le32 riff @ t2 @ t3 @ le32 fsz @ le16 code @ le16 chn) @ le32 rate
                  @ (le32 brate @ le16 balign @ le16 bits @ t4 @ le32 dsz @ rest)"
    by (simp add: H_def)
  moreover have "length (pre @ t1 @ le32 riff @ t2 @ t3 @ le32 fsz @ le16 code @ le16 chn)
      = length pre + 24"
    using assms by simp
  ultimately show "u32_at H (length pre + 24) = rate"
    by (simp only: u32_at_le32_off)
  have "H = (pre @ t1 @ le32 riff @ t2 @ t3 @ le32 fsz @ le16 code @ le16 chn @ le32 rate)
                  @ le32 brate @ (le16 balign @ le16 bits @ t4 @ le32 dsz @ rest)"
    by (simp add: H_def)
  moreover have "length (pre @ t1 @ le32 riff @ t2 @ t3 @ le32 fsz @ le16 code @ le16 chn
      @ le32 rate) = length pre + 28"
    using assms by simp
  ultimately show "u32_at H (length pre + 28) = brate"
    by (simp only: u32_at_le32_off)
  have "H = (pre @ t1 @ le32 riff @ t2 @ t3 @ le32 fsz @ le16 code @ le16 chn @ le32 rate
                  @ le32 brate) @ le16 balign @ (le16 bits @ t4 @ le32 dsz @ rest)"
    by (simp add: H_def)
  moreover have "length (pre @ t1 @ le32 riff @ t2 @ t3 @ le32 fsz @ le16 code @ le16 chn
      @ le32 rate @ le32 brate) = length pre + 32"
    using assms by simp
  ultimately show "u16_at H (length pre + 32) = balign"
    by (simp only: u16_at_le16_off)
  have "H = (pre @ t1 @ le32 riff @ t2 @ t3 @ le32 fsz @ le16 code @ le16 chn @ le32 rate
                  @ le32 brate @ le16 balign) @ le16 bits @ (t4 @ le32 dsz @ rest)"
    by (simp add: H_def)
  moreover have "length (pre @ t1 @ le32 riff @ t2 @ t3 @ le32 fsz @ le16 code @ le16 chn
      @ le32 rate @ le32 brate @ le16 balign) = length pre + 34"
    using assms by simp
  ultimately show "u16_at H (length pre + 34) = bits"
    by (simp only: u16_at_le16_off)
  have "H = (pre @ t1 @ le32 riff @ t2 @ t3 @ le32 fsz @ le16 code @ le16 chn @ le32 rate
                  @ le32 brate @ le16 balign @ le16 bits @ t4) @ le32 dsz @ rest"
    by (simp add: H_def)
  moreover have "length (pre @ t1 @ le32 riff @ t2 @ t3 @ le32 fsz @ le16 code @ le16 chn
      @ le32 rate @ le32 brate @ le16 balign @ le16 bits @ t4) = length pre + 40"
    using assms by simp
  ultimately show "u32_at H (length pre + 40) = dsz"
    by (simp only: u32_at_le32_off)
qed

lemmas wav_fields_rest =
  header_fields [OF tag_lengths(1) tag_lengths(2) tag_lengths(3) tag_lengths(4)]

lemmas wav_fields = wav_fields_rest [where rest = "[]", simplified]

lemma WriteWAVHeader_fields:
  fixes f :: ofstream and sr ch bps :: int and ds :: nat and fmt :: FMOD_SOUND_FORMAT
  assumes "is_open f"
  defines "f' \<equiv> snd (WriteWAVHeader f sr ch ds bps fmt)"
  defines "n \<equiv> length (content f)"
  shows "is_open f'"
    and "length (content f') = n + 44"
    and "take n (content f') = content f"
    and "u32_at (content f') (n + 4) = of_nat (36 + ds)"
    and "u16_at (content f') (n + 20) =
           (if fmt = FMOD_SOUND_FORMAT_PCMFLOAT then FORMAT_PCM_FLOAT else FORMAT_PCM)"
    and "u16_at (content f') (n + 22) = of_int ch"
    and "u32_at (content f') (n + 24) = of_int sr"
    and "u32_at (content f') (n + 28) =
           ucast (((of_int sr :: 64 word) * of_int ch * of_int bps) div 8)"
    and "u16_at (content f') (n + 32) = of_int (int_div (int32 (ch * bps)) 8)"
    and "u16_at (content f') (n + 34) = of_int bps"
    and "u32_at (content f') (n + 40) = of_nat ds"
  unfolding f'_def n_def WriteWAVHeader_open [OF assms(1)] snd_conv
  using assms(1) by (simp_all add: wav_fields)

lemma byte_rate_uint:
  "uint (ucast (((of_int sr :: 64 word) * of_int ch * of_int bps) div 8) :: 32 word)
     = (sr * ch * bps) mod 2 ^ 64 div 8 mod 2 ^ 32"
  by (simp add: unsigned_ucast_eq take_bit_eq_mod uint_div uint_word_of_int flip: of_int_mult)

lemma byte_rate_exact:
  fixes sr ch bps :: int
  assumes "0 \<le> sr" "0 \<le> ch" "0 \<le> bps" "sr * ch * bps div 8 < 2 ^ 32"
  shows "(sr * ch * bps) mod 2 ^ 64 div 8 mod 2 ^ 32 = sr * ch * bps div 8"
proof -
  define P where "P = sr * ch * bps"
  have nn: "0 \<le> P" using assms by (simp add: P_def)
  have q: "P div 8 < 4294967296" using assms(4) by (simp add: P_def)
  have "P = 8 * (P div 8) + P mod 8" by simp
  moreover have "P mod 8 < 8" by simp
  ultimately have "P < 18446744073709551616" using q by linarith
  hence "P mod 2 ^ 64 = P" using nn by simp
  moreover have "0 \<le> P div 8" using nn by simp
  ultimately show ?thesis using q unfolding P_def [symmetric] by simp
qed

lemma int_div_nonneg: "0 \<le> a \<Longrightarrow> int_div a 8 = a div 8"
  by (cases "a = 0") (simp_all add: int_div_def)


lemma int32_fits: "- 2147483648 \<le> x \<Longrightarrow> x < 2147483648 \<Longrightarrow> int32 x = x"
  by (simp add: int32_def)

lemma block_align_uint:
  "uint (of_int (int_div (int32 (ch * bps)) 8) :: 16 word)
     = int_div (int32 (ch * bps)) 8 mod 2 ^ 16"
  by (simp add: uint_word_of_int)

text \<open>
  C6 (as amended). A header that was written successfully is 44 bytes long; its byte-rate
  field holds \<open>sampleRate * channels * bitsPerSample\<close>, reduced modulo \<open>2 ^ 64\<close>, divided by 8
  and reduced modulo \<open>2 ^ 32\<close>; its block-align field holds the truncated quotient
  \<open>channels * bitsPerSample / 8\<close> modulo \<open>2 ^ 16\<close>, provided that the product
  \<open>channels * bitsPerSample\<close> fits an \<open>int\<close> (it is at least \<open>- 2 ^ 31\<close> and below \<open>2 ^ 31\<close>;
  beyond that the product overflows); its RIFF size field holds \<open>36 + dataSize\<close>
  modulo \<open>2 ^ 32\<close>; its format code is \<open>FORMAT_PCM_FLOAT\<close> exactly for the 32-bit float
  format and \<open>FORMAT_PCM\<close> for every other format. Each field holds the exact value
  whenever the inputs are not negative and the value fits the field.
\<close>

theorem WriteWAVHeader_field_values:
  fixes f f' :: ofstream and sampleRate channels bitsPerSample :: int and dataSize :: nat
  assumes "WriteWAVHeader f sampleRate channels dataSize bitsPerSample fmt = (True, f')"
  shows "length (content f') = length (content f) + 44
    \<and> uint (u32_at (content f') (length (content f) + 28))
        = (sampleRate * channels * bitsPerSample) mod 2 ^ 64 div 8 mod 2 ^ 32
    \<and> (- (2 ^ 31) \<le> channels * bitsPerSample \<and> channels * bitsPerSample < 2 ^ 31
        \<longrightarrow> uint (u16_at (content f') (length (content f) + 32))
              = int_div (channels * bitsPerSample) 8 mod 2 ^ 16)
    \<and> unat (u32_at (content f') (length (content f) + 4)) = (36 + dataSize) mod 2 ^ 32
    \<and> (u16_at (content f') (length (content f) + 20) = FORMAT_PCM_FLOAT)
        = (fmt = FMOD_SOUND_FORMAT_PCMFLOAT)
    \<and> (u16_at (content f') (length (content f) + 20) = FORMAT_PCM)
        = (fmt \<noteq> FMOD_SOUND_FORMAT_PCMFLOAT)
    \<and> (0 \<le> sampleRate \<and> 0 \<le> channels \<and> 0 \<le> bitsPerSample
          \<and> sampleRate * channels * bitsPerSample div 8 < 2 ^ 32
        \<longrightarrow> uint (u32_at (content f') (length (content f) + 28))
              = sampleRate * channels * bitsPerSample div 8)
    \<and> (0 \<le> channels * bitsPerSample \<and> channels * bitsPerSample div 8 < 2 ^ 16
        \<longrightarrow> uint (u16_at (content f') (length (content f) + 32))
              = channels * bitsPerSample div 8)
    \<and> (36 + dataSize < 2 ^ 32
        \<longrightarrow> unat (u32_at (content f') (length (content f) + 4)) = 36 + dataSize)"
proof -
  have op: "is_open f"
    using assms by (auto simp: WriteWAVHeader_def split: if_splits)
  have f': "f' = snd (WriteWAVHeader f sampleRate channels dataSize bitsPerSample fmt)"
    using assms by simp
  note fl = WriteWAVHeader_fields [OF op, of sampleRate channels dataSize bitsPerSample fmt,
      folded f']
  have 1: "length (content f') = length (content f) + 44" by (rule fl)
  have 2: "uint (u32_at (content f') (length (content f) + 28))
        = (sampleRate * channels * bitsPerSample) mod 2 ^ 64 div 8 mod 2 ^ 32"
    by (simp only: fl byte_rate_uint)
  have 3: "uint (u16_at (content f') (length (content f) + 32))
        = int_div (channels * bitsPerSample) 8 mod 2 ^ 16"
    if "- (2 ^ 31) \<le> channels * bitsPerSample \<and> channels * bitsPerSample < 2 ^ 31"
  proof -
    have "int32 (channels * bitsPerSample) = channels * bitsPerSample"
      using that by (intro int32_fits) simp_all
    thus ?thesis
      using block_align_uint [of channels bitsPerSample] by (simp only: fl)
  qed
  have 4: "unat (u32_at (content f') (length (content f) + 4)) = (36 + dataSize) mod 2 ^ 32"
    by (simp only: fl unat_of_nat) simp
  have 5: "(u16_at (content f') (length (content f) + 20) = FORMAT_PCM_FLOAT)
        = (fmt = FMOD_SOUND_FORMAT_PCMFLOAT)"
    by (simp add: fl FORMAT_PCM_def FORMAT_PCM_FLOAT_def)
  have 6: "(u16_at (content f') (length (content f) + 20) = FORMAT_PCM)
        = (fmt \<noteq> FMOD_SOUND_FORMAT_PCMFLOAT)"
    by (simp add: fl FORMAT_PCM_def FORMAT_PCM_FLOAT_def)
  have 7: "uint (u32_at (content f') (length (content f) + 28))
              = sampleRate * channels * bitsPerSample div 8"
    if "0 \<le> sampleRate \<and> 0 \<le> channels \<and> 0 \<le> bitsPerSample
          \<and> sampleRate * channels * bitsPerSample div 8 < 2 ^ 32"
    using that byte_rate_exact [of sampleRate channels bitsPerSample] by (simp only: 2) 
  have 8: "uint (u16_at (content f') (length (content f) + 32))
              = channels * bitsPerSample div 8"
    if "0 \<le> channels * bitsPerSample \<and> channels * bitsPerSample div 8 < 2 ^ 16"
  proof -
    define P where "P = channels * bitsPerSample"
    have nn: "0 \<le> P" and q: "P div 8 < 65536" using that by (simp_all add: P_def)
    have "P = 8 * (P div 8) + P mod 8" by simp
    moreover have "P mod 8 < 8" by simp
    ultimately have "P < 2147483648" using q by linarith
    hence b: "- (2 ^ 31) \<le> channels * bitsPerSample \<and> channels * bitsPerSample < 2 ^ 31"
      using nn by (simp add: P_def)
    have "0 \<le> P div 8" using nn by simp
    hence "int_div P 8 mod 2 ^ 16 = P div 8" using nn q by (simp add: int_div_nonneg)
    thus ?thesis using 3 [OF b] by (simp only: P_def)
  qed
  have 9: "unat (u32_at (content f') (length (content f) + 4)) = 36 + dataSize"
    if "36 + dataSize < 2 ^ 32"
    using that by (simp add: 4)
  from 1 2 3 4 5 6 7 8 9 show ?thesis by blast
qed

text \<open>The theorem at the standard combination 44100 Hz, stereo, 16 bit, 1000 data bytes.\<close>

theorem WriteWAVHeader_field_values_witness:
  "WriteWAVHeader \<lparr>is_open = True, content = []\<rparr> 44100 2 1000 16 FMOD_SOUND_FORMAT_PCM16
     = (True, snd (WriteWAVHeader \<lparr>is_open = True, content = []\<rparr> 44100 2 1000 16
                     FMOD_SOUND_FORMAT_PCM16))
   \<and> length (content (snd (WriteWAVHeader \<lparr>is_open = True, content = []\<rparr> 44100 2 1000 16
                     FMOD_SOUND_FORMAT_PCM16))) = 44
   \<and> uint (u32_at (content (snd (WriteWAVHeader \<lparr>is_open = True, content = []\<rparr> 44100 2 1000 16
                     FMOD_SOUND_FORMAT_PCM16))) 28) = 176400
   \<and> uint (u16_at (content (snd (WriteWAVHeader \<lparr>is_open = True, content = []\<rparr> 44100 2 1000 16
                     FMOD_SOUND_FORMAT_PCM16))) 32) = 4
   \<and> unat (u32_at (content (snd (WriteWAVHeader \<lparr>is_open = True, content = []\<rparr> 44100 2 1000 16
                     FMOD_SOUND_FORMAT_PCM16))) 4) = 1036
   \<and> u16_at (content (snd (WriteWAVHeader \<lparr>is_open = True, content = []\<rparr> 44100 2 1000 16
                     FMOD_SOUND_FORMAT_PCM16))) 20 = FORMAT_PCM"
proof -
  have h: "WriteWAVHeader \<lparr>is_open = True, content = []\<rparr> 44100 2 1000 16 FMOD_SOUND_FORMAT_PCM16
     = (True, snd (WriteWAVHeader \<lparr>is_open = True, content = []\<rparr> 44100 2 1000 16
                     FMOD_SOUND_FORMAT_PCM16))"
    by (simp add: WriteWAVHeader_def)
  show ?thesis
    using h WriteWAVHeader_field_values [OF h] by (simp add: int_div_def)
qed

text \<open>
  C6 as stated (exact values for every input) fails where a value does not fit its field:
  a data size of \<open>2 ^ 32 - 1\<close> bytes, a byte rate of \<open>2147483647 * 2 * 32 / 8\<close>, a block
  alignment of 65536.
\<close>

theorem WriteWAVHeader_field_overflow:
  "fst (WriteWAVHeader \<lparr>is_open = True, content = []\<rparr> 44100 2 4294967295 16
          FMOD_SOUND_FORMAT_PCM16)
   \<and> unat (u32_at (content (snd (WriteWAVHeader \<lparr>is_open = True, content = []\<rparr> 44100 2
          4294967295 16 FMOD_SOUND_FORMAT_PCM16))) 4) \<noteq> 36 + 4294967295
   \<and> fst (WriteWAVHeader \<lparr>is_open = True, content = []\<rparr> 2147483647 2 1000 32
          FMOD_SOUND_FORMAT_PCM32)
   \<and> uint (u32_at (content (snd (WriteWAVHeader \<lparr>is_open = True, content = []\<rparr> 2147483647 2
          1000 32 FMOD_SOUND_FORMAT_PCM32))) 28) \<noteq> 2147483647 * 2 * 32 div 8
   \<and> fst (WriteWAVHeader \<lparr>is_open = True, content = []\<rparr> 44100 65536 1000 8
          FMOD_SOUND_FORMAT_PCM8)
   \<and> uint (u16_at (content (snd (WriteWAVHeader \<lparr>is_open = True, content = []\<rparr> 44100 65536
          1000 8 FMOD_SOUND_FORMAT_PCM8))) 32) \<noteq> 65536 * 8 div 8"
proof -
  have op: "is_open \<lparr>is_open = True, content = []\<rparr>" by simp
  show ?thesis
    using WriteWAVHeader_fields(4,8,9) [OF op]
    by (simp add: WriteWAVHeader_True_iff int_div_def int32_def unat_of_nat uint_word_of_int
        unsigned_ucast_eq take_bit_eq_mod uint_div)
qed

subsection \<open>The transcription loops\<close>

lemma WriteAudioDataChunk_loop:
  "WriteAudioDataChunk fuel rd L s = chunk_loop put_raw fuel rd L s"
  by (induction fuel arbitrary: s) (simp_all add: put_raw_def split: prod.splits)

lemma WritePCM24DataChunk_loop:
  "WritePCM24DataChunk fuel rd L s = chunk_loop put_pcm24 fuel rd L s"
  by (induction fuel arbitrary: s) (simp_all add: put_pcm24_def split: prod.splits)

lemma WritePCMFloatDataChunk_loop:
  "WritePCMFloatDataChunk fuel rd L s = chunk_loop put_float fuel rd L s"
  by (induction fuel arbitrary: s) (simp_all add: put_float_def split: prod.splits)

lemma ofs_write_Nil [simp]: "ofs_write f [] = f"
  by (simp add: ofs_write_def)

lemma ofs_write_twice [simp]: "ofs_write (ofs_write f a) b = ofs_write f (a @ b)"
  by (simp add: ofs_write_def)

lemma is_open_ofs_write [simp]: "is_open (ofs_write f a) = is_open f"
  by (simp add: ofs_write_def)

lemma content_ofs_write:
  "content (ofs_write f a) = (if is_open f then content f @ a else content f)"
  by (simp add: ofs_write_def)

lemma take3_drop:
  assumes "i + 2 < length xs"
  shows "take 3 (drop i xs) = [xs ! i, xs ! (i + 1), xs ! (i + 2)]"
proof -
  have "drop i xs = xs ! i # drop (Suc i) xs" using assms by (simp add: Cons_nth_drop_Suc)
  moreover have "drop (Suc i) xs = xs ! (i + 1) # drop (Suc (Suc i)) xs"
    using assms by (simp add: Cons_nth_drop_Suc)
  moreover have "drop (Suc (Suc i)) xs = xs ! (i + 2) # drop (Suc (Suc (Suc i))) xs"
    using assms by (simp add: Cons_nth_drop_Suc)
  ultimately show ?thesis by (simp add: numeral_3_eq_3)
qed

lemma pcm24_for_eq:
  "pcm24_for buffer (length buffer) i f
     = ofs_write f (take ((length buffer - i) div 3 * 3) (drop i buffer))"
proof (induction buffer "length buffer" i f rule: pcm24_for.induct)
  case (1 buffer i f)
  show ?case
  proof (cases "i + 2 < length buffer")
    case True
    hence d: "(length buffer - i) div 3 = Suc ((length buffer - (i + 3)) div 3)"
      using le_div_geq [of 3 "length buffer - i"] by simp
    have "take ((length buffer - i) div 3 * 3) (drop i buffer)
        = take 3 (drop i buffer) @ take ((length buffer - (i + 3)) div 3 * 3) (drop (i + 3) buffer)"
      unfolding d by (simp add: take_add add.commute)
    thus ?thesis
      using True 1 by (subst pcm24_for.simps) (simp add: take3_drop)
  next
    case False
    thus ?thesis
      using 1 by (subst pcm24_for.simps) auto
  qed
qed



lemma reads_boundedD:
  assumes "reads_bounded rd" "rd e n = (r, bs, e')"
  shows "length bs \<le> n"
  using assms(1) [unfolded reads_bounded_def, THEN spec [where x = e], THEN spec [where x = n]]
    assms(2)
  by simp

lemma chunk_loop_more_fuel:
  "chunk_loop put n rd L s = (Some b, s') \<Longrightarrow> chunk_loop put (n + k) rd L s = (Some b, s')"
proof (induction n arbitrary: s)
  case 0
  thus ?case by (cases k) (auto split: if_splits)
next
  case (Suc n)
  thus ?case by (auto split: if_splits prod.splits simp: Let_def)
qed

lemma chunk_loop_Suc:
  assumes "totalBytesRead s < L"
    and "rd (engine s) (min CHUNK_SIZE ((L - totalBytesRead s) mod 2 ^ 32)) = (r, bs, e')"
  shows "chunk_loop put (Suc fuel) rd L s =
     (if r \<noteq> FMOD_OK then (Some False, s\<lparr>engine := e', chunkCount := chunkCount s + 1\<rparr>)
      else chunk_loop put fuel rd L
             (s\<lparr>engine := e', wavFile := put bs (wavFile s),
                totalBytesRead := (totalBytesRead s + length bs) mod 2 ^ 32,
                chunkCount := chunkCount s + 1\<rparr>))"
  using assms by simp


lemma bytesToRead_bounds:
  assumes "t < L" "L < 2 ^ 32"
  shows "0 < min CHUNK_SIZE ((L - t) mod 2 ^ 32)"
    and "min CHUNK_SIZE ((L - t) mod 2 ^ 32) \<le> L - t"
    and "min CHUNK_SIZE ((L - t) mod 2 ^ 32) \<le> 4096"
proof -
  have "L - t < 2 ^ 32" using assms(2) by simp
  hence "(L - t) mod 2 ^ 32 = L - t" by simp
  thus "0 < min CHUNK_SIZE ((L - t) mod 2 ^ 32)"
    and "min CHUNK_SIZE ((L - t) mod 2 ^ 32) \<le> L - t"
    and "min CHUNK_SIZE ((L - t) mod 2 ^ 32) \<le> 4096"
    using assms(1) by (simp_all add: CHUNK_SIZE_def)
qed




lemma chunk_loop_numeral:
  "chunk_loop put (numeral k) rd L s =
     (if totalBytesRead s < L then
        (case rd (engine s) (min CHUNK_SIZE ((L - totalBytesRead s) mod 2 ^ 32)) of
           (r, buffer, e') \<Rightarrow>
             if r \<noteq> FMOD_OK
             then (Some False, s\<lparr>engine := e', chunkCount := chunkCount s + 1\<rparr>)
             else chunk_loop put (pred_numeral k) rd L
                    (s\<lparr>engine := e',
                       wavFile := put buffer (wavFile s),
                       totalBytesRead := (totalBytesRead s + length buffer) mod 2 ^ 32,
                       chunkCount := chunkCount s + 1\<rparr>))
      else (Some True, s))"
  by (simp only: numeral_eq_Suc chunk_loop.simps Let_def)


lemma chunk_loop_no_failure:
  assumes "\<And>e n. fst (rd e n) = FMOD_OK"
  shows "fst (chunk_loop put fuel rd L s) \<noteq> Some False"
proof (induction fuel arbitrary: s)
  case 0
  show ?case by simp
next
  case (Suc fuel)
  show ?case
  proof (cases "totalBytesRead s < L")
    case False
    thus ?thesis by simp
  next
    case True
    obtain r bs e' where
      rd: "rd (engine s) (min CHUNK_SIZE ((L - totalBytesRead s) mod 2 ^ 32)) = (r, bs, e')"
      using prod_cases3 by blast
    have "r = FMOD_OK" using assms [of "engine s" "min CHUNK_SIZE ((L - totalBytesRead s) mod 2 ^ 32)"] rd
      by simp
    thus ?thesis
      unfolding chunk_loop_Suc [where rd = rd and put = put and fuel = fuel, OF True rd]
      using Suc.IH by simp
  qed
qed




lemma put_raw_eq: "put_raw b f = ofs_write f b"
  by (simp add: put_raw_def)

lemma put_pcm24_eq: "put_pcm24 b f = ofs_write f (take (length b div 3 * 3) b)"
  by (simp add: put_pcm24_def pcm24_for_eq)

lemma float_store_length:
  "4 * i + 4 \<le> length buf \<Longrightarrow> length (float_store buf i v) = length buf"
  by (simp add: float_store_def)

lemma clamp_for_length:
  "bytesRead \<le> length buf \<Longrightarrow> length (clamp_for buf bytesRead i) = length buf"
proof (induction buf bytesRead i rule: clamp_for.induct)
  case (1 floatBuffer bytesRead i)
  show ?case
  proof (cases "i < bytesRead div 4")
    case True
    hence "4 * i + 4 \<le> length floatBuffer" using "1.prems" by linarith
    hence l: "length (float_store floatBuffer i
        (std_clamp (u32_at floatBuffer (4 * i)) float_minus_one float_one)) = length floatBuffer"
      by (rule float_store_length)
    show ?thesis
      using True "1.IH" [OF True] "1.prems" l by (subst clamp_for.simps) simp
  next
    case False
    thus ?thesis by (subst clamp_for.simps) simp
  qed
qed

lemma appends_puts: "appends put_raw" "appends put_pcm24" "appends put_float"
  by (simp_all add: appends_def put_raw_eq put_pcm24_eq put_float_def content_ofs_write)

lemma appendsD:
  assumes "appends put"
  shows "is_open (put b f) = is_open f"
    and "length (content f) \<le> length (content (put b f))"
    and "take (length (content f)) (content (put b f)) = content f"
  using assms unfolding appends_def by blast+

lemma chunk_loop_prefix:
  assumes "appends put"
  shows "is_open (wavFile (snd (chunk_loop put fuel rd L s))) = is_open (wavFile s)
    \<and> length (content (wavFile s)) \<le> length (content (wavFile (snd (chunk_loop put fuel rd L s))))
    \<and> take (length (content (wavFile s))) (content (wavFile (snd (chunk_loop put fuel rd L s))))
        = content (wavFile s)"
proof (induction fuel arbitrary: s)
  case 0
  show ?case by simp
next
  case (Suc fuel)
  show ?case
  proof (cases "totalBytesRead s < L")
    case False
    thus ?thesis by simp
  next
    case True
    obtain r bs e' where
      rd: "rd (engine s) (min CHUNK_SIZE ((L - totalBytesRead s) mod 2 ^ 32)) = (r, bs, e')"
      using prod_cases3 by blast
    note step = chunk_loop_Suc [where rd = rd and put = put and fuel = fuel, OF True rd]
    show ?thesis
    proof (cases "r = FMOD_OK")
      case False
      thus ?thesis unfolding step by simp
    next
      case ok: True
      define s1 where "s1 = s\<lparr>engine := e', wavFile := put bs (wavFile s),
         totalBytesRead := (totalBytesRead s + length bs) mod 2 ^ 32,
         chunkCount := chunkCount s + 1\<rparr>"
      define c where "c = content (wavFile (snd (chunk_loop put fuel rd L s1)))"
      have w1: "wavFile s1 = put bs (wavFile s)" by (simp add: s1_def)
      note a = appendsD [OF assms, where b = bs and f = "wavFile s"]
      have ih: "is_open (wavFile (snd (chunk_loop put fuel rd L s1))) = is_open (wavFile s1)"
        "length (content (wavFile s1)) \<le> length c"
        "take (length (content (wavFile s1))) c = content (wavFile s1)"
        using Suc.IH [of s1] by (simp_all add: c_def)
      have "take (length (content (wavFile s))) c
          = take (length (content (wavFile s))) (take (length (content (wavFile s1))) c)"
        using a(2) by (simp add: w1 min_def)
      also have "\<dots> = content (wavFile s)" using ih(3) a(3) by (simp add: w1)
      finally have "take (length (content (wavFile s))) c = content (wavFile s)" .
      moreover have "length (content (wavFile s)) \<le> length c" using ih(2) a(2) by (simp add: w1)
      moreover have "is_open (wavFile (snd (chunk_loop put fuel rd L s1))) = is_open (wavFile s)"
        using ih(1) a(1) by (simp add: w1)
      ultimately show ?thesis
        unfolding step s1_def [symmetric] c_def using ok by simp
    qed
  qed
qed

lemma stores_all_puts: "stores_all put_raw" "stores_all put_float"
  by (simp_all add: stores_all_def put_raw_eq put_float_def content_ofs_write clamp_for_length)

lemma chunk_loop_length:
  assumes "appends put" "stores_all put" "reads_bounded rd" "L < 2 ^ 32"
  shows "is_open (wavFile s) \<Longrightarrow> totalBytesRead s \<le> L \<Longrightarrow>
     totalBytesRead s \<le> totalBytesRead (snd (chunk_loop put fuel rd L s))
     \<and> totalBytesRead (snd (chunk_loop put fuel rd L s)) \<le> L
     \<and> length (content (wavFile (snd (chunk_loop put fuel rd L s))))
         = length (content (wavFile s))
           + (totalBytesRead (snd (chunk_loop put fuel rd L s)) - totalBytesRead s)
     \<and> (fst (chunk_loop put fuel rd L s) = Some True
          \<longrightarrow> totalBytesRead (snd (chunk_loop put fuel rd L s)) = L)"
proof (induction fuel arbitrary: s)
  case 0
  thus ?case by simp
next
  case (Suc fuel)
  show ?case
  proof (cases "totalBytesRead s < L")
    case False
    thus ?thesis using Suc.prems by simp
  next
    case True
    note n = bytesToRead_bounds [OF True assms(4)]
    obtain r bs e' where
      rd: "rd (engine s) (min CHUNK_SIZE ((L - totalBytesRead s) mod 2 ^ 32)) = (r, bs, e')"
      using prod_cases3 by blast
    note step = chunk_loop_Suc [where rd = rd and put = put and fuel = fuel, OF True rd]
    show ?thesis
    proof (cases "r = FMOD_OK")
      case False
      thus ?thesis unfolding step using Suc.prems by simp
    next
      case ok: True
      define s1 where "s1 = s\<lparr>engine := e', wavFile := put bs (wavFile s),
         totalBytesRead := (totalBytesRead s + length bs) mod 2 ^ 32,
         chunkCount := chunkCount s + 1\<rparr>"
      define s2 where "s2 = snd (chunk_loop put fuel rd L s1)"
      have len: "length bs \<le> min CHUNK_SIZE ((L - totalBytesRead s) mod 2 ^ 32)"
        using reads_boundedD [OF assms(3) rd] .
      have le: "totalBytesRead s + length bs \<le> L" using len n(2) True by linarith
      hence "totalBytesRead s + length bs < 2 ^ 32" using assms(4) by linarith
      hence t1: "totalBytesRead s1 = totalBytesRead s + length bs"
        by (simp add: s1_def)
      have w1: "wavFile s1 = put bs (wavFile s)" by (simp add: s1_def)
      have o1: "is_open (wavFile s1)"
        using appendsD(1) [OF assms(1)] Suc.prems(1) by (simp add: w1)
      have l1: "length (content (wavFile s1)) = length (content (wavFile s)) + length bs"
        using assms(2) Suc.prems(1) unfolding stores_all_def w1 by blast
      have "totalBytesRead s1 \<le> L" using t1 le by simp
      note ih = Suc.IH [OF o1 this, folded s2_def]
      have "totalBytesRead s \<le> totalBytesRead s2" using ih t1 by linarith
      moreover have "totalBytesRead s2 \<le> L" using ih by simp
      moreover have "length (content (wavFile s2))
          = length (content (wavFile s)) + (totalBytesRead s2 - totalBytesRead s)"
        using ih t1 l1 by linarith
      moreover have "fst (chunk_loop put fuel rd L s1) = Some True \<longrightarrow> totalBytesRead s2 = L"
        using ih by simp
      ultimately show ?thesis
        unfolding step s1_def [symmetric] using ok by (simp add: s2_def)
    qed
  qed
qed

subsection \<open>ProcessSubSound\<close>

lemma WriteWAVHeader_new_file:
  "fst (WriteWAVHeader \<lparr>is_open = True, content = []\<rparr> sr ch ds bps fmt) = True"
  by (simp add: WriteWAVHeader_def)

lemma WriteWAVHeader_new_file_eq:
  "WriteWAVHeader \<lparr>is_open = True, content = []\<rparr> sr ch ds bps fmt
     = (True, snd (WriteWAVHeader \<lparr>is_open = True, content = []\<rparr> sr ch ds bps fmt))"
  by (simp add: WriteWAVHeader_def)

lemma ProcessSubSound_unfold:
  "ProcessSubSound fuel subSound opens =
     (if seekData subSound \<noteq> FMOD_OK
      then (Some (Inl (runtime_error ''FMOD::Sound::seekData failed for sub-sound'')), None)
      else case GetSoundInfo subSound of
        Inl e \<Rightarrow> (Some (Inl e), None)
      | Inr info \<Rightarrow>
          if \<not> opens then (Some (Inl (runtime_error ''Failed to open output WAV file'')), None)
          else (case fst (chunk_loop (put_of (format info)) fuel (readData subSound)
                            (unat (soundLengthBytes info)) (start_state subSound info)) of
                  None \<Rightarrow> None
                | Some b \<Rightarrow> if b then Some (Inr ())
                    else Some (Inl (runtime_error ''Failed to write audio data to WAV file'')),
                Some (wavFile (snd (chunk_loop (put_of (format info)) fuel (readData subSound)
                            (unat (soundLengthBytes info)) (start_state subSound info))))))"
proof -
  have loops: "(case fmt of
       FMOD_SOUND_FORMAT_PCM8 \<Rightarrow> WriteAudioDataChunk fuel rd len s0
     | FMOD_SOUND_FORMAT_PCM16 \<Rightarrow> WriteAudioDataChunk fuel rd len s0
     | FMOD_SOUND_FORMAT_PCM24 \<Rightarrow> WritePCM24DataChunk fuel rd len s0
     | FMOD_SOUND_FORMAT_PCM32 \<Rightarrow> WriteAudioDataChunk fuel rd len s0
     | FMOD_SOUND_FORMAT_PCMFLOAT \<Rightarrow> WritePCMFloatDataChunk fuel rd len s0
     | _ \<Rightarrow> WriteAudioDataChunk fuel rd len s0) = chunk_loop (put_of fmt) fuel rd len s0"
    for fmt and rd :: "'a \<Rightarrow> nat \<Rightarrow> FMOD_RESULT \<times> byte list \<times> 'a" and len s0
    by (cases fmt) (simp_all add: put_of_def WriteAudioDataChunk_loop WritePCM24DataChunk_loop
        WritePCMFloatDataChunk_loop)
  show ?thesis
    unfolding ProcessSubSound_def loops Let_def
    by (subst WriteWAVHeader_new_file_eq)
      (auto simp: CheckFMODResult_def start_state_def split: sum.splits option.splits)
qed


lemma start_state_simps:
  "totalBytesRead (start_state subSound info) = 0"
  "engine (start_state subSound info) = stream subSound"
  "is_open (wavFile (start_state subSound info))"
  "content (wavFile (start_state subSound info)) =
         RIFF_HEADER
         @ le32 (of_nat (36 + unat (soundLengthBytes info)))
         @ WAVE_FORMAT
         @ FMT_CHUNK
         @ le32 16
         @ le16 (if format info = FMOD_SOUND_FORMAT_PCMFLOAT then FORMAT_PCM_FLOAT else FORMAT_PCM)
         @ le16 (of_int (channels info))
         @ le32 (of_int (sampleRate info))
         @ le32 (ucast (((of_int (sampleRate info) :: 64 word) * of_int (channels info)
                        * of_int (bitsPerSample info)) div 8))
         @ le16 (of_int (int_div (int32 (channels info * bitsPerSample info)) 8))
         @ le16 (of_int (bitsPerSample info))
         @ DATA_CHUNK
         @ le32 (soundLengthBytes info)"
  by (simp_all add: start_state_def WriteWAVHeader_open)

lemma start_state_length: "length (content (wavFile (start_state subSound info))) = 44"
  by (simp add: start_state_simps)

lemma u32_at_take: "i + 3 < n \<Longrightarrow> u32_at (take n xs) i = u32_at xs i"
  by (simp add: u32_at_def)

lemmas wav_fields_start = wav_fields_rest [where pre = "[]" and rest = "[]", simplified]

lemma start_state_fields:
  "u32_at (content (wavFile (start_state subSound info))) 40 = soundLengthBytes info"
  "u32_at (content (wavFile (start_state subSound info))) 24 = of_int (sampleRate info)"
  by (simp_all only: start_state_simps wav_fields_start)

text \<open>The header stays in front of whatever the loop writes.\<close>

lemma appends_put_of: "appends (put_of fmt)"
  by (simp add: put_of_def appends_puts)

lemma ProcessSubSound_header_kept:
  assumes "ProcessSubSound fuel subSound opens = (res, Some wav)"
  shows "\<exists>info. GetSoundInfo subSound = Inr info
     \<and> wav = wavFile (snd (chunk_loop (put_of (format info)) fuel (readData subSound)
                            (unat (soundLengthBytes info)) (start_state subSound info)))
     \<and> 44 \<le> length (content wav)
     \<and> take 44 (content wav) = content (wavFile (start_state subSound info))"
proof -
  from assms obtain info where info: "GetSoundInfo subSound = Inr info"
    and wav: "wav = wavFile (snd (chunk_loop (put_of (format info)) fuel (readData subSound)
                            (unat (soundLengthBytes info)) (start_state subSound info)))"
    unfolding ProcessSubSound_unfold by (auto split: if_splits sum.splits)
  from chunk_loop_prefix [OF appends_put_of, of "format info" fuel "readData subSound"
      "unat (soundLengthBytes info)" "start_state subSound info"]
  have "44 \<le> length (content wav)"
    "take 44 (content wav) = content (wavFile (start_state subSound info))"
    unfolding wav start_state_length by simp_all
  with info wav show ?thesis by blast
qed

lemma ProcessSubSound_fields:
  assumes "ProcessSubSound fuel subSound opens = (res, Some wav)"
    and "GetSoundInfo subSound = Inr info"
  shows "u32_at (content wav) 40 = soundLengthBytes info"
    and "u32_at (content wav) 24 = of_int (sampleRate info)"
proof -
  from ProcessSubSound_header_kept [OF assms(1)] assms(2)
  have t: "take 44 (content wav) = content (wavFile (start_state subSound info))" by auto
  have "u32_at (content wav) 40 = u32_at (take 44 (content wav)) 40"
    by (simp add: u32_at_take)
  thus "u32_at (content wav) 40 = soundLengthBytes info"
    unfolding t by (simp only: start_state_fields)
  have "u32_at (content wav) 24 = u32_at (take 44 (content wav)) 24"
    by (simp add: u32_at_take)
  thus "u32_at (content wav) 24 = of_int (sampleRate info)"
    unfolding t by (simp only: start_state_fields)
qed

text \<open>The integer and float paths write exactly as many bytes as the header announces.\<close>

lemma ProcessSubSound_data_size:
  assumes "ProcessSubSound fuel subSound opens = (Some (Inr ()), Some wav)"
    and "GetSoundInfo subSound = Inr info"
    and "format info \<noteq> FMOD_SOUND_FORMAT_PCM24"
    and "reads_bounded (readData subSound)"
  shows "length (content wav) = 44 + unat (u32_at (content wav) 40)"
proof -
  define r where "r = chunk_loop (put_of (format info)) fuel (readData subSound)
                            (unat (soundLengthBytes info)) (start_state subSound info)"
  from assms(1,2) have wav: "wav = wavFile (snd r)" and ok: "fst r = Some True"
    unfolding ProcessSubSound_unfold r_def
    by (auto split: if_splits sum.splits option.splits)
  have st: "stores_all (put_of (format info))"
    using assms(3) by (simp add: put_of_def stores_all_puts)
  have L: "unat (soundLengthBytes info) < 2 ^ 32"
    using unsigned_less [of "soundLengthBytes info", where ?'a = nat] by simp
  from chunk_loop_length [OF appends_put_of st assms(4) L, of "start_state subSound info" fuel]
  have "length (content (wavFile (snd r))) = 44 + unat (soundLengthBytes info)"
    unfolding r_def [symmetric] using ok by (simp add: start_state_simps(1,3) start_state_length)
  thus ?thesis
    using ProcessSubSound_fields(1) [OF assms(1,2)] by (simp add: wav)
qed

subsection \<open>The 24-bit path\<close>

lemma replicate_join: "replicate m x @ replicate n x @ ys = replicate (m + n) x @ ys"
  by (simp add: replicate_add)

lemma pcm24_eval_4098:
  assumes "is_open f0"
  shows "chunk_loop put_pcm24 3 full_read 4098
     \<lparr>engine = replicate 4098 0, wavFile = f0, totalBytesRead = 0, chunkCount = c\<rparr>
     = (Some True, \<lparr>engine = [], wavFile = f0\<lparr>content := content f0 @ replicate 4095 0\<rparr>,
                    totalBytesRead = 4098, chunkCount = c + 2\<rparr>)"
  using assms
  by (simp add: chunk_loop_numeral full_read_def CHUNK_SIZE_def put_pcm24_eq ofs_write_def)

lemma pcm24_eval_8194:
  "chunk_loop put_pcm24 4 full_read 8194
     \<lparr>engine = replicate 8194 0, wavFile = \<lparr>is_open = True, content = []\<rparr>,
      totalBytesRead = 0, chunkCount = 0\<rparr>
     = (Some True, \<lparr>engine = [], wavFile = \<lparr>is_open = True, content = replicate 8190 0\<rparr>,
                    totalBytesRead = 8194, chunkCount = 3\<rparr>)"
  by (simp add: chunk_loop_numeral full_read_def CHUNK_SIZE_def put_pcm24_eq ofs_write_def
      flip: replicate_add)

lemma pcm24_eval_4099:
  "chunk_loop put_pcm24 3 full_read 4099
     \<lparr>engine = replicate 4098 0 @ [255], wavFile = \<lparr>is_open = True, content = []\<rparr>,
      totalBytesRead = 0, chunkCount = 0\<rparr>
     = (Some True, \<lparr>engine = [], wavFile = \<lparr>is_open = True, content = replicate 4097 0 @ [255]\<rparr>,
                    totalBytesRead = 4099, chunkCount = 2\<rparr>)"
  by (simp add: chunk_loop_numeral full_read_def CHUNK_SIZE_def put_pcm24_eq ofs_write_def
      replicate_join)


lemma GetSoundInfo_example:
  "GetSoundInfo (example_sound fmt bits freq data) =
     Inr \<lparr>format = fmt,
          sampleRate = (if float_less float_zero freq then float_to_int freq else 44100),
          bitsPerSample = bits, channels = 1,
          soundLengthBytes = of_nat (length data), lengthMs = 0, subSoundName = []\<rparr>"
  by (simp add: GetSoundInfo_def example_sound_def)

text \<open>
  C1 (header data size = sample bytes written) on the 24-bit path. A well-formed mono
  24-bit sub-sound of 4098 bytes (1366 samples), delivered in full chunks: the function
  returns normally, the data-size field of the header holds 4098, and 4095 sample bytes
  follow the 44-byte header. (\<open>ProcessSubSound_data_size\<close> above shows that the integer
  and float paths do keep the two equal.)
\<close>

theorem ProcessSubSound_pcm24_header_mismatch:
  "fst (ProcessSubSound 3
          (example_sound FMOD_SOUND_FORMAT_PCM24 24 0x472C4400 (replicate 4098 0)) True)
     = Some (Inr ())
   \<and> unat (u32_at (output_of (ProcessSubSound 3
          (example_sound FMOD_SOUND_FORMAT_PCM24 24 0x472C4400 (replicate 4098 0)) True)) 40)
     = 4098
   \<and> length (output_of (ProcessSubSound 3
          (example_sound FMOD_SOUND_FORMAT_PCM24 24 0x472C4400 (replicate 4098 0)) True))
     = 44 + 4095"
proof -
  define ex where "ex = example_sound FMOD_SOUND_FORMAT_PCM24 24 0x472C4400 (replicate 4098 0)"
  define info where "info = \<lparr>format = FMOD_SOUND_FORMAT_PCM24,
          sampleRate = (if float_less float_zero 0x472C4400 then float_to_int 0x472C4400
                        else 44100),
          bitsPerSample = 24, channels = 1,
          soundLengthBytes = 4098, lengthMs = 0, subSoundName = []\<rparr>"
  have gi: "GetSoundInfo ex = Inr info"
    unfolding ex_def info_def GetSoundInfo_example by simp
  have ex: "seekData ex = FMOD_OK" "readData ex = full_read" "stream ex = replicate 4098 0"
    by (simp_all add: ex_def example_sound_def)
  have info: "format info = FMOD_SOUND_FORMAT_PCM24" "unat (soundLengthBytes info) = 4098"
    by (simp_all add: info_def)
  define f0 where "f0 = wavFile (start_state ex info)"
  have f0: "is_open f0" "length (content f0) = 44"
    "u32_at (content f0 @ replicate 4095 0) 40 = soundLengthBytes info"
    unfolding f0_def
    by (simp_all add: start_state_simps wav_fields_rest [where pre = "[]", simplified])
  have st: "start_state ex info
      = \<lparr>engine = replicate 4098 0, wavFile = f0, totalBytesRead = 0, chunkCount = 0\<rparr>"
    by (simp add: start_state_def f0_def ex)
  have run: "ProcessSubSound 3 ex True
      = (Some (Inr ()), Some (f0\<lparr>content := content f0 @ replicate 4095 0\<rparr>))"
    unfolding ProcessSubSound_unfold gi
    by (simp add: ex info put_of_def st pcm24_eval_4098 [OF f0(1)])
  show ?thesis
    unfolding ex_def [symmetric] run output_of_def using f0 info by simp
qed

text \<open>
  C2 (a 24-bit stream of \<open>L\<close> bytes, \<open>L\<close> not a multiple of 3, yields \<open>L div 3 * 3\<close> bytes and
  no byte of the incomplete trailing sample) on streams longer than one chunk. With 8194
  zero bytes 8190 bytes are written, not 8193. With 4099 bytes, the last of which is 255 and
  is the one byte of the incomplete trailing sample, the output ends with that byte (and
  has lost byte 4095, which belongs to a complete sample).
\<close>

theorem WritePCM24DataChunk_multi_chunk:
  "WritePCM24DataChunk 4 full_read 8194
     \<lparr>engine = replicate 8194 0, wavFile = \<lparr>is_open = True, content = []\<rparr>,
      totalBytesRead = 0, chunkCount = 0\<rparr>
     = (Some True, \<lparr>engine = [], wavFile = \<lparr>is_open = True, content = replicate 8190 0\<rparr>,
                    totalBytesRead = 8194, chunkCount = 3\<rparr>)
   \<and> (8194 :: nat) div 3 * 3 = 8193
   \<and> WritePCM24DataChunk 3 full_read 4099
     \<lparr>engine = replicate 4098 0 @ [255], wavFile = \<lparr>is_open = True, content = []\<rparr>,
      totalBytesRead = 0, chunkCount = 0\<rparr>
     = (Some True, \<lparr>engine = [], wavFile = \<lparr>is_open = True, content = replicate 4097 0 @ [255]\<rparr>,
                    totalBytesRead = 4099, chunkCount = 2\<rparr>)
   \<and> (4099 :: nat) div 3 * 3 = 4098"
  unfolding WritePCM24DataChunk_loop pcm24_eval_8194 pcm24_eval_4099 by simp

text \<open>A 24-bit stream that fits one chunk: the complete samples are written, the incomplete
  trailing sample is not.\<close>

lemma WritePCM24DataChunk_single_chunk:
  assumes "length data = L" "0 < L" "L \<le> 4096" "is_open f0"
  shows "WritePCM24DataChunk 2 full_read L
     \<lparr>engine = data, wavFile = f0, totalBytesRead = 0, chunkCount = c\<rparr>
     = (Some True, \<lparr>engine = [], wavFile = f0\<lparr>content := content f0 @ take (L div 3 * 3) data\<rparr>,
                    totalBytesRead = L, chunkCount = c + 1\<rparr>)"
proof -
  have "data \<noteq> []" using assms by auto
  moreover have "L mod 4294967296 = L" using assms by simp
  ultimately show ?thesis
    unfolding WritePCM24DataChunk_loop using assms
    by (simp add: chunk_loop_numeral full_read_def CHUNK_SIZE_def put_pcm24_eq ofs_write_def)
qed

subsection \<open>The sample rate\<close>

lemma float_zero_facts: "\<not> isnan float_zero" "float_val float_zero = 0"
  by (simp_all add: isnan_def float_val_def float_zero_def f_exp_def f_frac_def f_sign_def)

lemma float_less_zero: "float_less float_zero f = (\<not> isnan f \<and> 0 < float_val f)"
  by (simp add: float_less_def float_zero_facts)

lemma float_val_22050_75: "\<not> isnan 0x46AC4580" "float_val 0x46AC4580 = 88203 / 4"
  by (simp_all add: isnan_def float_val_def f_exp_def f_frac_def f_sign_def)

lemma float_to_int_22050_75: "float_to_int 0x46AC4580 = 22050"
  by (simp add: float_to_int_def float_val_22050_75)

lemma round_22050_75: "round (float_val 0x46AC4580) = 22051"
  by (simp add: float_val_22050_75 round_def)

lemma clamp_bounds_facts:
  "\<not> isnan float_minus_one" "float_val float_minus_one = - 1"
  "\<not> isnan float_one" "float_val float_one = 1"
  by (simp_all add: isnan_def float_val_def float_minus_one_def float_one_def
      f_exp_def f_frac_def f_sign_def)

lemma nan_example: "isnan 0x7FC00000"
  by (simp add: isnan_def f_exp_def f_frac_def)

lemma two_example: "\<not> isnan 0x40000000" "float_val 0x40000000 = 2"
  by (simp_all add: isnan_def float_val_def f_exp_def f_frac_def f_sign_def)


lemma GetSoundInfo_sampleRate:
  assumes "GetSoundInfo subSound = Inr info" "getDefaults subSound = (r, f, p)"
  shows "sampleRate info = (if float_less float_zero f then float_to_int f else 44100)"
  using assms by (auto simp: GetSoundInfo_def split: prod.splits if_splits)

text \<open>
  C5 (as amended). Whenever \<open>ProcessSubSound\<close> creates an output file, the sample-rate
  field of its header (offset 24) holds the queried default frequency with its fractional
  part discarded (\<open>static_cast<int>\<close> truncates; for a positive value that is the floor)
  when the frequency is greater than zero and below \<open>2 ^ 31 = 2147483648\<close> Hz, and 44100
  when the frequency is not greater than zero (a NaN frequency is not greater than zero).
  Nothing is stated for a frequency of \<open>2 ^ 31\<close> Hz or more: there the conversion to \<open>int\<close>
  overflows, which C++ leaves undefined.
\<close>

theorem header_sample_rate:
  assumes "ProcessSubSound fuel subSound opens = (res, Some wav)"
    and "getDefaults subSound = (r, f, p)"
  shows "(\<not> isnan f \<and> 0 < float_val f \<and> float_val f < 2147483648
            \<longrightarrow> u32_at (content wav) 24 = of_int \<lfloor>float_val f\<rfloor>)
       \<and> (isnan f \<or> float_val f \<le> 0 \<longrightarrow> u32_at (content wav) 24 = 44100)"
proof -
  from ProcessSubSound_header_kept [OF assms(1)]
  obtain info where info: "GetSoundInfo subSound = Inr info" by blast
  note sr = GetSoundInfo_sampleRate [OF info assms(2)]
  note fld = ProcessSubSound_fields(2) [OF assms(1) info]
  show ?thesis
    unfolding fld sr float_less_zero by (auto simp: float_to_int_def)
qed

lemma ProcessSubSound_example_runs:
  "snd (ProcessSubSound fuel (example_sound fmt bits freq data) True) \<noteq> None"
  unfolding ProcessSubSound_unfold GetSoundInfo_example
  by (simp add: example_sound_def)

lemma output_of_Some: "snd r = Some wav \<Longrightarrow> output_of r = content wav"
  by (simp add: output_of_def)

text \<open>The theorem for a 16-bit sub-sound whose default frequency is 22050.75 Hz
  (bit pattern \<open>0x46AC4580\<close>).\<close>

theorem header_sample_rate_witness:
  "getDefaults (example_sound FMOD_SOUND_FORMAT_PCM16 16 0x46AC4580 [1, 2, 3, 4])
     = (FMOD_OK, 0x46AC4580, 128)
   \<and> \<not> isnan 0x46AC4580 \<and> 0 < float_val 0x46AC4580 \<and> float_val 0x46AC4580 < 2147483648
   \<and> u32_at (output_of (ProcessSubSound 2
         (example_sound FMOD_SOUND_FORMAT_PCM16 16 0x46AC4580 [1, 2, 3, 4]) True)) 24 = 22050"
proof -
  define ex where "ex = example_sound FMOD_SOUND_FORMAT_PCM16 16 0x46AC4580 [1, 2, 3, 4]"
  obtain wav where wav: "snd (ProcessSubSound 2 ex True) = Some wav"
    using ProcessSubSound_example_runs unfolding ex_def by blast
  hence h1: "ProcessSubSound 2 ex True = (fst (ProcessSubSound 2 ex True), Some wav)"
    by (metis prod.collapse)
  have h2: "getDefaults ex = (FMOD_OK, 0x46AC4580, 128)"
    by (simp add: ex_def example_sound_def)
  show ?thesis
    using header_sample_rate [OF h1 h2] h2 output_of_Some [OF wav]
    unfolding ex_def [symmetric]
    by (simp add: float_val_22050_75)
qed

text \<open>
  C5 as stated (rounded to the nearest integer) fails for that sub-sound: the nearest
  integer to 22050.75 is 22051, the header holds 22050.
\<close>

theorem header_sample_rate_not_rounded:
  "\<not> isnan 0x46AC4580 \<and> 0 < float_val 0x46AC4580
   \<and> u32_at (output_of (ProcessSubSound 2
         (example_sound FMOD_SOUND_FORMAT_PCM16 16 0x46AC4580 [1, 2, 3, 4]) True)) 24
       \<noteq> of_int (round (float_val 0x46AC4580))"
proof -
  define ex where "ex = example_sound FMOD_SOUND_FORMAT_PCM16 16 0x46AC4580 [1, 2, 3, 4]"
  obtain wav where wav: "snd (ProcessSubSound 2 ex True) = Some wav"
    using ProcessSubSound_example_runs unfolding ex_def by blast
  hence h1: "ProcessSubSound 2 ex True = (fst (ProcessSubSound 2 ex True), Some wav)"
    by (metis prod.collapse)
  have info: "GetSoundInfo ex = Inr \<lparr>format = FMOD_SOUND_FORMAT_PCM16,
          sampleRate = 22050, bitsPerSample = 16, channels = 1,
          soundLengthBytes = 4, lengthMs = 0, subSoundName = []\<rparr>"
    unfolding ex_def GetSoundInfo_example
    by (simp add: float_less_zero float_val_22050_75 float_to_int_22050_75)
  have "u32_at (content wav) 24 = 22050"
    using ProcessSubSound_fields(2) [OF h1 info] by simp
  thus ?thesis
    unfolding ex_def [symmetric] output_of_Some [OF wav] round_22050_75
    by (simp add: float_val_22050_75)
qed

subsection \<open>The float path\<close>

lemma std_clamp_result:
  "isnan (std_clamp v float_minus_one float_one)
   \<or> in_unit_range (std_clamp v float_minus_one float_one)"
  by (auto simp: std_clamp_def float_less_def in_unit_range_def clamp_bounds_facts)

lemma float_store_sample:
  assumes "4 * i + 4 \<le> length buf" "4 * j + 4 \<le> length buf"
  shows "u32_at (float_store buf i v) (4 * j) = (if j = i then v else u32_at buf (4 * j))"
proof (cases "j = i")
  case True
  have "u32_at (take (4 * i) buf @ le32 v @ drop (4 * i + 4) buf) (4 * i) = v"
    using assms(1) by (intro u32_at_le32_off) simp
  thus ?thesis using True by (simp add: float_store_def)
next
  case False
  hence "j < i \<or> i < j" by linarith
  thus ?thesis
  proof
    assume "j < i"
    thus ?thesis using assms by (simp add: float_store_def u32_at_def nth_append)
  next
    assume "i < j"
    hence "\<not> 4 * j < 4 * i" "\<not> 4 * j + 1 < 4 * i" "\<not> 4 * j + 2 < 4 * i" "\<not> 4 * j + 3 < 4 * i"
      "\<not> 4 * j - 4 * i < 4" "\<not> 4 * j + 1 - 4 * i < 4" "\<not> 4 * j + 2 - 4 * i < 4"
      "\<not> 4 * j + 3 - 4 * i < 4"
      by linarith+
    moreover have "4 * i + 4 + (4 * j - 4 * i - 4) = 4 * j"
      "4 * i + 4 + (4 * j + 1 - 4 * i - 4) = 4 * j + 1"
      "4 * i + 4 + (4 * j + 2 - 4 * i - 4) = 4 * j + 2"
      "4 * i + 4 + (4 * j + 3 - 4 * i - 4) = 4 * j + 3"
      using \<open>i < j\<close> by linarith+
    ultimately show ?thesis
      using assms False by (simp add: float_store_def u32_at_def nth_append min_def add.commute)
  qed
qed

lemma clamp_for_sample:
  "bytesRead \<le> length buf \<Longrightarrow> j < bytesRead div 4 \<Longrightarrow>
   u32_at (clamp_for buf bytesRead i) (4 * j)
     = (if i \<le> j then std_clamp (u32_at buf (4 * j)) float_minus_one float_one
        else u32_at buf (4 * j))"
proof (induction buf bytesRead i rule: clamp_for.induct)
  case (1 floatBuffer bytesRead i)
  have j: "4 * j + 4 \<le> length floatBuffer" using "1.prems" by linarith
  show ?case
  proof (cases "i < bytesRead div 4")
    case True
    define c where "c = std_clamp (u32_at floatBuffer (4 * i)) float_minus_one float_one"
    hence i: "4 * i + 4 \<le> length floatBuffer" using True "1.prems" by linarith
    have l: "bytesRead \<le> length (float_store floatBuffer i c)"
      using float_store_length [OF i] "1.prems" by simp
    note ih = "1.IH" [OF True, folded c_def, OF l "1.prems"(2)]
    note fs = float_store_sample [OF i j, of c]
    have "u32_at (clamp_for (float_store floatBuffer i c) bytesRead (i + 1)) (4 * j)
        = (if i \<le> j then std_clamp (u32_at floatBuffer (4 * j)) float_minus_one float_one
           else u32_at floatBuffer (4 * j))"
    proof (cases "j = i")
      case True
      thus ?thesis using ih fs by (simp add: c_def)
    next
      case False
      thus ?thesis using ih fs by auto
    qed
    thus ?thesis
      using True by (subst clamp_for.simps) (simp add: c_def)
  next
    case False
    thus ?thesis using "1.prems" by (subst clamp_for.simps) simp
  qed
qed

lemma clamp_for_clamped: "samples_clamped (clamp_for bs (length bs) 0)"
  unfolding samples_clamped_def
  by (simp add: clamp_for_length clamp_for_sample std_clamp_result)

lemma dvd4_lt:
  assumes "4 dvd (n::nat)" "4 * j < n"
  shows "4 * j + 3 < n"
proof -
  from assms(1) obtain k where "n = 4 * k" by (elim dvdE)
  thus ?thesis using assms(2) by simp
qed

lemma u32_at_append:
  assumes "4 dvd length a"
  shows "u32_at (a @ b) (4 * j)
     = (if 4 * j < length a then u32_at a (4 * j) else u32_at b (4 * j - length a))"
proof (cases "4 * j < length a")
  case True
  hence "4 * j + 3 < length a" using assms by (rule dvd4_lt [rotated])
  thus ?thesis by (simp add: u32_at_def nth_append)
next
  case False
  hence "\<not> 4 * j + 1 < length a" "\<not> 4 * j + 2 < length a" "\<not> 4 * j + 3 < length a"
    "4 * j + 1 - length a = 4 * j - length a + 1" "4 * j + 2 - length a = 4 * j - length a + 2"
    "4 * j + 3 - length a = 4 * j - length a + 3"
    by linarith+
  thus ?thesis using False by (simp add: u32_at_def nth_append)
qed

lemma samples_clamped_append:
  assumes "4 dvd length a" "samples_clamped a" "samples_clamped b"
  shows "samples_clamped (a @ b)"
  unfolding samples_clamped_def
proof (intro allI impI)
  fix j assume j: "j < length (a @ b) div 4"
  from assms(1) obtain k where k: "length a = 4 * k" by (elim dvdE)
  show "isnan (u32_at (a @ b) (4 * j)) \<or> in_unit_range (u32_at (a @ b) (4 * j))"
  proof (cases "4 * j < length a")
    case True
    hence "j < length a div 4" using k by simp
    thus ?thesis
      using assms(2) True unfolding samples_clamped_def u32_at_append [OF assms(1)] by simp
  next
    case False
    hence kj: "k \<le> j" using k by simp
    have "length (a @ b) div 4 = k + length b div 4" using k by simp
    hence "j - k < length b div 4" using j kj by linarith
    moreover have "4 * j - length a = 4 * (j - k)" using k kj by simp
    ultimately show ?thesis
      using assms(3) False unfolding samples_clamped_def u32_at_append [OF assms(1)] by simp
  qed
qed

lemma samples_clamped_Nil [simp]: "samples_clamped []"
  by (simp add: samples_clamped_def)

lemma reads_alignedD:
  assumes "reads_aligned rd" "rd e n = (r, bs, e')"
  shows "4 dvd length bs"
  using assms(1) [unfolded reads_aligned_def, THEN spec [where x = e], THEN spec [where x = n]]
    assms(2)
  by simp

lemma float_loop_clamped:
  assumes "reads_aligned rd"
  shows "\<exists>out. content (wavFile (snd (chunk_loop put_float fuel rd L s)))
                 = content (wavFile s) @ out
           \<and> 4 dvd length out \<and> samples_clamped out"
proof (induction fuel arbitrary: s)
  case 0
  show ?case by simp
next
  case (Suc fuel)
  show ?case
  proof (cases "totalBytesRead s < L")
    case False
    thus ?thesis by simp
  next
    case True
    obtain r bs e' where
      rd: "rd (engine s) (min CHUNK_SIZE ((L - totalBytesRead s) mod 2 ^ 32)) = (r, bs, e')"
      using prod_cases3 by blast
    note step = chunk_loop_Suc [where rd = rd and put = put_float and fuel = fuel, OF True rd]
    show ?thesis
    proof (cases "r = FMOD_OK")
      case False
      thus ?thesis unfolding step by simp
    next
      case ok: True
      define s1 where "s1 = s\<lparr>engine := e', wavFile := put_float bs (wavFile s),
         totalBytesRead := (totalBytesRead s + length bs) mod 2 ^ 32,
         chunkCount := chunkCount s + 1\<rparr>"
      define c1 where "c1 = (if is_open (wavFile s) then clamp_for bs (length bs) 0 else [])"
      have a: "4 dvd length bs" using reads_alignedD [OF assms rd] .
      have c1: "content (wavFile s1) = content (wavFile s) @ c1"
        "4 dvd length c1" "samples_clamped c1"
        using a by (simp_all add: s1_def c1_def put_float_def content_ofs_write
            clamp_for_length clamp_for_clamped)
      from Suc.IH [of s1] obtain out where out:
        "content (wavFile (snd (chunk_loop put_float fuel rd L s1)))
            = content (wavFile s1) @ out" "4 dvd length out" "samples_clamped out"
        by blast
      have "content (wavFile (snd (chunk_loop put_float fuel rd L s1)))
            = content (wavFile s) @ (c1 @ out)"
        using out(1) c1(1) by simp
      moreover have "4 dvd length (c1 @ out)" using c1(2) out(2) by simp
      moreover have "samples_clamped (c1 @ out)"
        using samples_clamped_append [OF c1(2,3) out(3)] .
      ultimately show ?thesis
        unfolding step s1_def [symmetric] using ok by (simp del: append_assoc)
    qed
  qed
qed


lemma length_concat_le32: "length (concat (map le32 xs)) = 4 * length xs"
  by (induction xs) simp_all

lemma reads_aligned_sample_read: "reads_aligned sample_read"
  by (simp add: reads_aligned_def sample_read_def length_concat_le32)

text \<open>
  C9 (as amended). When every read delivers a whole number of 4-byte samples, then at every
  point of the float transcription what it has written so far is a whole number of samples,
  and each of them is a NaN or has a value in \<open>[-1, 1]\<close>; a value delivered outside that
  range (infinities included) is written as \<open>-1\<close> or \<open>1\<close>.
\<close>

theorem float_samples_clamped:
  assumes "reads_aligned rd"
  shows "4 dvd length (written_since (wavFile s)
                         (wavFile (snd (WritePCMFloatDataChunk fuel rd L s))))
       \<and> samples_clamped (written_since (wavFile s)
                             (wavFile (snd (WritePCMFloatDataChunk fuel rd L s))))"
proof -
  from float_loop_clamped [OF assms, of fuel L s] obtain out where
    "content (wavFile (snd (chunk_loop put_float fuel rd L s))) = content (wavFile s) @ out"
    "4 dvd length out" "samples_clamped out"
    by blast
  thus ?thesis
    by (simp add: WritePCMFloatDataChunk_loop written_since_def)
qed

lemma float_eval_example:
  "WritePCMFloatDataChunk 2 sample_read 12
     \<lparr>engine = [0x40000000, 0xBFC00000, 0x3F000000],
      wavFile = \<lparr>is_open = True, content = []\<rparr>, totalBytesRead = 0, chunkCount = 0\<rparr>
   = (Some True, \<lparr>engine = [],
        wavFile = \<lparr>is_open = True, content = [0, 0, 128, 63, 0, 0, 128, 191, 0, 0, 0, 63]\<rparr>,
        totalBytesRead = 12, chunkCount = 1\<rparr>)"
  by (simp add: WritePCMFloatDataChunk_loop chunk_loop_numeral sample_read_def CHUNK_SIZE_def
      put_float_def ofs_write_def clamp_for.simps float_store_def le32_def u32_at_def
      std_clamp_def float_less_def isnan_def float_val_def f_exp_def f_frac_def f_sign_def
      float_minus_one_def float_one_def)

text \<open>The theorem for the three samples 2.0, -1.5 and 0.5: they are written as 1.0, -1.0
  and 0.5.\<close>

theorem float_samples_clamped_witness:
  "reads_aligned sample_read
   \<and> samples_clamped (written_since \<lparr>is_open = True, content = []\<rparr>
        (wavFile (snd (WritePCMFloatDataChunk 2 sample_read 12
           \<lparr>engine = [0x40000000, 0xBFC00000, 0x3F000000],
            wavFile = \<lparr>is_open = True, content = []\<rparr>, totalBytesRead = 0,
            chunkCount = 0\<rparr>))))
   \<and> written_since \<lparr>is_open = True, content = []\<rparr>
        (wavFile (snd (WritePCMFloatDataChunk 2 sample_read 12
           \<lparr>engine = [0x40000000, 0xBFC00000, 0x3F000000],
            wavFile = \<lparr>is_open = True, content = []\<rparr>, totalBytesRead = 0,
            chunkCount = 0\<rparr>)))
      = [0, 0, 128, 63, 0, 0, 128, 191, 0, 0, 0, 63]"
  using float_samples_clamped [OF reads_aligned_sample_read, of
      "\<lparr>engine = [0x40000000, 0xBFC00000, 0x3F000000],
        wavFile = \<lparr>is_open = True, content = []\<rparr>, totalBytesRead = 0, chunkCount = 0\<rparr>" 2 12]
    reads_aligned_sample_read
  by (simp add: float_eval_example written_since_def)

text \<open>
  C9 as stated (every sample written lies in \<open>[-1, 1]\<close>) fails in two ways. A NaN delivered
  by the engine (\<open>0x7FC00000\<close>) is written unchanged, since it compares neither below
  \<open>-1\<close> nor above \<open>1\<close>. And when the engine delivers 8 bytes as 6 and then 2, only the
  first sample is clamped: the second sample of the file, 2.0 (\<open>0x40000000\<close>), lies across
  the two reads and is written unchanged.
\<close>

theorem float_samples_not_clamped:
  "WritePCMFloatDataChunk 2 sample_read 4
     \<lparr>engine = [0x7FC00000], wavFile = \<lparr>is_open = True, content = []\<rparr>,
      totalBytesRead = 0, chunkCount = 0\<rparr>
   = (Some True, \<lparr>engine = [], wavFile = \<lparr>is_open = True, content = [0, 0, 192, 127]\<rparr>,
        totalBytesRead = 4, chunkCount = 1\<rparr>)
   \<and> isnan (u32_at [0, 0, 192, 127] 0)
   \<and> WritePCMFloatDataChunk 3 piece_read 8
     \<lparr>engine = [[0, 0, 0, 0, 0, 0], [0, 64]], wavFile = \<lparr>is_open = True, content = []\<rparr>,
      totalBytesRead = 0, chunkCount = 0\<rparr>
   = (Some True, \<lparr>engine = [],
        wavFile = \<lparr>is_open = True, content = [0, 0, 0, 0, 0, 0, 0, 64]\<rparr>,
        totalBytesRead = 8, chunkCount = 2\<rparr>)
   \<and> \<not> isnan (u32_at [0, 0, 0, 0, 0, 0, 0, 64] 4)
   \<and> float_val (u32_at [0, 0, 0, 0, 0, 0, 0, 64] 4) = 2"
  by (simp add: WritePCMFloatDataChunk_loop chunk_loop_numeral sample_read_def piece_read_def
      CHUNK_SIZE_def
      put_float_def ofs_write_def clamp_for.simps float_store_def le32_def u32_at_def
      std_clamp_def float_less_def isnan_def float_val_def f_exp_def f_frac_def f_sign_def
      float_minus_one_def float_one_def)

subsection \<open>The signature scanner\<close>

lemma FSB5_length [simp]: "length FSB5 = 4"
  by (simp add: FSB5_def bytes_of_def)

lemma uint_not_EOF: "uint (b :: byte) \<noteq> EOF"
proof
  assume "uint b = EOF"
  hence "uint b < 0" by (simp add: EOF_def)
  thus False by simp
qed

lemma sig_at_bound: "sig_at d k \<Longrightarrow> k + 4 \<le> length d"
proof -
  assume "sig_at d k"
  hence "length (take 4 (drop k d)) = 4" by (simp add: sig_at_def)
  thus ?thesis by simp
qed

lemma loop_found:
  assumes "good s" "sig_at (fdata s) (gpos s)"
  shows "FindFSB5Signature_loop s = (True, s\<lparr>gcount := 4\<rparr>)"
proof -
  have b: "gpos s + 4 \<le> length (fdata s)" using assms(2) by (rule sig_at_bound)
  hence l: "gpos s < length (fdata s)" by simp
  have pk: "peek s = (uint (fdata s ! gpos s), s\<lparr>gcount := 0\<rparr>)"
    using assms(1) l by (simp add: peek_def)
  have ne: "uint (fdata s ! gpos s) \<noteq> EOF" by (rule uint_not_EOF)
  have rd: "read (s\<lparr>gcount := 0\<rparr>) 4 = (FSB5, s\<lparr>gpos := gpos s + 4, gcount := 4\<rparr>)"
    using assms b by (simp add: read_def good_def sig_at_def Let_def)
  have sk: "seekg_cur (s\<lparr>gpos := gpos s + 4, gcount := 4\<rparr>) (- 4) = s\<lparr>gcount := 4\<rparr>"
    using assms(1) by (simp add: seekg_cur_def good_def)
  show ?thesis
    by (subst FindFSB5Signature_loop.simps) (simp add: pk ne rd sk)
qed

lemma loop_advance:
  assumes "good s" "\<not> sig_at (fdata s) (gpos s)" "gpos s + 4 \<le> length (fdata s)"
  shows "FindFSB5Signature_loop s
     = FindFSB5Signature_loop (s\<lparr>gpos := gpos s + 1, gcount := 4\<rparr>)"
proof -
  have l: "gpos s < length (fdata s)" using assms(3) by simp
  have pk: "peek s = (uint (fdata s ! gpos s), s\<lparr>gcount := 0\<rparr>)"
    using assms(1) l by (simp add: peek_def)
  have ne: "uint (fdata s ! gpos s) \<noteq> EOF" by (rule uint_not_EOF)
  have rd: "read (s\<lparr>gcount := 0\<rparr>) 4
      = (take 4 (drop (gpos s) (fdata s)), s\<lparr>gpos := gpos s + 4, gcount := 4\<rparr>)"
    using assms by (simp add: read_def good_def Let_def)
  have sk: "seekg_cur (s\<lparr>gpos := gpos s + 4, gcount := 4\<rparr>) (- 3)
      = s\<lparr>gpos := gpos s + 1, gcount := 4\<rparr>"
    using assms(1) by (simp add: seekg_cur_def good_def)
  show ?thesis
    using assms(2)
    by (subst FindFSB5Signature_loop.simps) (simp add: pk ne rd sk sig_at_def)
qed

lemma loop_short:
  assumes "good s" "gpos s < length (fdata s)" "length (fdata s) < gpos s + 4"
  shows "FindFSB5Signature_loop s
     = (False, s\<lparr>gpos := length (fdata s), eofbit := True, failbit := True,
                 gcount := length (fdata s) - gpos s\<rparr>)"
proof -
  have pk: "peek s = (uint (fdata s ! gpos s), s\<lparr>gcount := 0\<rparr>)"
    using assms by (simp add: peek_def)
  have ne: "uint (fdata s ! gpos s) \<noteq> EOF" by (rule uint_not_EOF)
  have rd: "read (s\<lparr>gcount := 0\<rparr>) 4
      = (drop (gpos s) (fdata s),
         s\<lparr>gpos := length (fdata s), eofbit := True, failbit := True,
           gcount := length (fdata s) - gpos s\<rparr>)"
    using assms by (simp add: read_def good_def Let_def)
  have n4: "length (fdata s) - gpos s \<noteq> 4" using assms by linarith
  show ?thesis
    by (subst FindFSB5Signature_loop.simps) (simp add: pk ne rd n4)
qed

lemma loop_at_end:
  assumes "good s" "length (fdata s) \<le> gpos s"
  shows "FindFSB5Signature_loop s = (False, s\<lparr>eofbit := True, gcount := 0\<rparr>)"
  using assms by (subst FindFSB5Signature_loop.simps) (simp add: peek_def)

lemma loop_finds_first:
  assumes "sig_at d k" "\<forall>j. p \<le> j \<and> j < k \<longrightarrow> \<not> sig_at d j"
  shows "p \<le> k \<Longrightarrow>
    FindFSB5Signature_loop \<lparr>fdata = d, gpos = p, eofbit = False, failbit = False, gcount = g\<rparr>
      = (True, \<lparr>fdata = d, gpos = k, eofbit = False, failbit = False, gcount = 4\<rparr>)"
  using assms(2)
proof (induction "k - p" arbitrary: p g)
  case 0
  hence "p = k" by simp
  thus ?case using loop_found [of "\<lparr>fdata = d, gpos = k, eofbit = False, failbit = False,
      gcount = g\<rparr>"] assms(1) by (simp add: good_def)
next
  case (Suc n)
  hence lt: "p < k" by linarith
  hence ns: "\<not> sig_at d p" using Suc.prems by simp
  have b: "p + 4 \<le> length d" using sig_at_bound [OF assms(1)] lt by simp
  have "FindFSB5Signature_loop \<lparr>fdata = d, gpos = p, eofbit = False, failbit = False, gcount = g\<rparr>
      = FindFSB5Signature_loop \<lparr>fdata = d, gpos = p + 1, eofbit = False, failbit = False,
          gcount = 4\<rparr>"
    using loop_advance [of "\<lparr>fdata = d, gpos = p, eofbit = False, failbit = False,
      gcount = g\<rparr>"] ns b by (simp add: good_def)
  also have "\<dots> = (True, \<lparr>fdata = d, gpos = k, eofbit = False, failbit = False, gcount = 4\<rparr>)"
    using Suc.hyps(2) lt Suc.prems by (intro Suc.hyps(1)) auto
  finally show ?case .
qed

lemma loop_finds_none:
  assumes "\<forall>j. p \<le> j \<longrightarrow> \<not> sig_at d j"
  shows "p < length d \<Longrightarrow>
    \<exists>g'. FindFSB5Signature_loop \<lparr>fdata = d, gpos = p, eofbit = False, failbit = False, gcount = g\<rparr>
      = (False, \<lparr>fdata = d, gpos = length d, eofbit = True, failbit = True, gcount = g'\<rparr>)"
  using assms
proof (induction "length d - p" arbitrary: p g)
  case 0
  thus ?case by simp
next
  case (Suc n)
  show ?case
  proof (cases "p + 4 \<le> length d")
    case True
    have ns: "\<not> sig_at d p" using Suc.prems by simp
    have e: "FindFSB5Signature_loop \<lparr>fdata = d, gpos = p, eofbit = False, failbit = False,
          gcount = g\<rparr>
      = FindFSB5Signature_loop \<lparr>fdata = d, gpos = p + 1, eofbit = False, failbit = False,
          gcount = 4\<rparr>"
      using loop_advance [of "\<lparr>fdata = d, gpos = p, eofbit = False, failbit = False,
        gcount = g\<rparr>"] ns True by (simp add: good_def)
    have "\<exists>g'. FindFSB5Signature_loop \<lparr>fdata = d, gpos = p + 1, eofbit = False,
          failbit = False, gcount = 4\<rparr>
      = (False, \<lparr>fdata = d, gpos = length d, eofbit = True, failbit = True, gcount = g'\<rparr>)"
      using Suc.hyps(2) True Suc.prems by (intro Suc.hyps(1)) auto
    thus ?thesis unfolding e .
  next
    case False
    thus ?thesis
      using loop_short [of "\<lparr>fdata = d, gpos = p, eofbit = False, failbit = False,
        gcount = g\<rparr>"] Suc.prems(1) by (simp add: good_def)
  qed
qed

text \<open>The function itself.\<close>

lemma FindFSB5Signature_found:
  assumes "sig_at d k" "\<forall>j. p \<le> j \<and> j < k \<longrightarrow> \<not> sig_at d j" "p \<le> k"
  shows "FindFSB5Signature \<lparr>fdata = d, gpos = p, eofbit = False, failbit = False, gcount = g\<rparr>
      = (True, \<lparr>fdata = d, gpos = k, eofbit = False, failbit = False, gcount = 4\<rparr>)"
  by (simp add: FindFSB5Signature_def loop_finds_first [OF assms])

lemma FindFSB5Signature_not_found:
  assumes "\<forall>j. p \<le> j \<longrightarrow> \<not> sig_at d j" "p < length d"
  shows "\<exists>g'. FindFSB5Signature \<lparr>fdata = d, gpos = p, eofbit = False, failbit = False,
            gcount = g\<rparr>
      = (False, \<lparr>fdata = d, gpos = length d, eofbit = False, failbit = True, gcount = g'\<rparr>)"
proof -
  from loop_finds_none [OF assms, of g] obtain g' where
    "FindFSB5Signature_loop \<lparr>fdata = d, gpos = p, eofbit = False, failbit = False, gcount = g\<rparr>
      = (False, \<lparr>fdata = d, gpos = length d, eofbit = True, failbit = True, gcount = g'\<rparr>)"
    by blast
  thus ?thesis by (simp add: FindFSB5Signature_def seekg_def)
qed

lemma FindFSB5Signature_at_end:
  assumes "length d \<le> p"
  shows "FindFSB5Signature \<lparr>fdata = d, gpos = p, eofbit = False, failbit = False, gcount = g\<rparr>
      = (False, \<lparr>fdata = d, gpos = p, eofbit = False, failbit = False, gcount = 0\<rparr>)"
  using loop_at_end [of "\<lparr>fdata = d, gpos = p, eofbit = False, failbit = False, gcount = g\<rparr>"]
    assms
  by (simp add: FindFSB5Signature_def good_def seekg_def tellg_def)

text \<open>
  C7 (on a match the stream stands at the first byte of the earliest occurrence; without a
  match the stream is restored to its original position, with no other side effect). The
  first half is \<open>FindFSB5Signature_found\<close>. The second half fails whenever bytes remain at
  the start position (\<open>FindFSB5Signature_not_found\<close>): the last \<open>read\<close> of the loop is short
  and sets \<open>failbit\<close>, so the final \<open>seekg(startPosition)\<close> does not move the stream. Here
  the stream over the seven bytes \<open>xyFSB4z\<close>, at offset 1: it is left at the end of the file
  with \<open>failbit\<close> set, and \<open>tellg\<close> answers \<open>-1\<close>.
\<close>

theorem FindFSB5Signature_position_lost:
  "FindFSB5Signature \<lparr>fdata = bytes_of ''xyFSB4z'', gpos = 1, eofbit = False, failbit = False,
       gcount = 0\<rparr>
     = (False, \<lparr>fdata = bytes_of ''xyFSB4z'', gpos = 7, eofbit = False, failbit = True,
                 gcount = 3\<rparr>)
   \<and> tellg (snd (FindFSB5Signature \<lparr>fdata = bytes_of ''xyFSB4z'', gpos = 1, eofbit = False,
       failbit = False, gcount = 0\<rparr>)) = - 1"
proof -
  have "FindFSB5Signature \<lparr>fdata = bytes_of ''xyFSB4z'', gpos = 1, eofbit = False,
       failbit = False, gcount = 0\<rparr>
     = (False, \<lparr>fdata = bytes_of ''xyFSB4z'', gpos = 7, eofbit = False, failbit = True,
                 gcount = 3\<rparr>)"
    by (simp add: FindFSB5Signature_def FindFSB5Signature_loop.simps peek_def read_def
        seekg_cur_def seekg_def tellg_def good_def EOF_def FSB5_def bytes_of_def Let_def)
  thus ?thesis by (simp add: tellg_def)
qed

subsection \<open>The sub-container extractor\<close>

lemma read_ok:
  assumes "p + n \<le> length d"
  shows "read \<lparr>fdata = d, gpos = p, eofbit = False, failbit = False, gcount = g\<rparr> n
     = (take n (drop p d), \<lparr>fdata = d, gpos = p + n, eofbit = False, failbit = False, gcount = n\<rparr>)"
  using assms by (simp add: read_def good_def Let_def)

lemma seekg_cur_ok:
  assumes "0 \<le> int p + off"
  shows "seekg_cur \<lparr>fdata = d, gpos = p, eofbit = False, failbit = False, gcount = g\<rparr> off
     = \<lparr>fdata = d, gpos = nat (int p + off), eofbit = False, failbit = False, gcount = g\<rparr>"
  using assms by (simp add: seekg_cur_def Let_def)

lemma u32_at_take_drop:
  assumes "q + 4 \<le> length d"
  shows "u32_at (take 4 (drop q d)) 0 = u32_at d q"
  using assms by (simp add: u32_at_def add.commute)

lemma length_take4_drop:
  assumes "q + 4 \<le> length d"
  shows "length (take 4 (drop q d)) = 4"
  using assms by simp

lemma unat_size_sum:
  fixes x y z :: "32 word"
  assumes "60 + unat x + unat y + unat z < 2 ^ 32"
  shows "unat (0x3C + x + y + z) = 60 + unat x + unat y + unat z"
proof -
  have "unat (0x3C + x + y + z) = (60 + unat x + unat y + unat z) mod 2 ^ 32"
    by (simp add: unat_word_ariths mod_simps)
  thus ?thesis using assms by simp
qed

lemma FindFSB5Signature_none:
  assumes "\<forall>j. p \<le> j \<longrightarrow> \<not> sig_at d j"
  shows "fst (FindFSB5Signature \<lparr>fdata = d, gpos = p, eofbit = False, failbit = False,
            gcount = g\<rparr>) = False"
proof (cases "p < length d")
  case True
  from FindFSB5Signature_not_found [OF assms True, of g] show ?thesis by auto
next
  case False
  hence "length d \<le> p" by simp
  from FindFSB5Signature_at_end [OF this, of g] show ?thesis by simp
qed

lemma extract_end:
  assumes "\<forall>j. p \<le> j \<longrightarrow> \<not> sig_at d j"
  shows "ExtractFSBs_loop n creatable base
           \<lparr>fdata = d, gpos = p, eofbit = False, failbit = False, gcount = g\<rparr> cnt fls fs
         = Returns (fls, fs)"
  using FindFSB5Signature_none [OF assms, of g]
  by (cases n) (auto split: prod.splits)

lemma extract_step:
  assumes "sig_at d k" "\<forall>j. p \<le> j \<and> j < k \<longrightarrow> \<not> sig_at d j" "p \<le> k"
    and "fsb_length d k < 2 ^ 32" "k + fsb_length d k \<le> length d"
    and "creatable (if cnt + 1 > 1 then base @ ''_'' @ to_string (cnt + 1) @ ''.fsb''
                    else base @ ''.fsb'')"
  shows "ExtractFSBs_loop (Suc n) creatable base
           \<lparr>fdata = d, gpos = p, eofbit = False, failbit = False, gcount = g\<rparr> cnt fls fs
     = ExtractFSBs_loop n creatable base
           \<lparr>fdata = d, gpos = k + fsb_length d k, eofbit = False, failbit = False,
            gcount = fsb_length d k\<rparr> (cnt + 1)
           (fls @ [if cnt + 1 > 1 then base @ ''_'' @ to_string (cnt + 1) @ ''.fsb''
                   else base @ ''.fsb''])
           (fs((if cnt + 1 > 1 then base @ ''_'' @ to_string (cnt + 1) @ ''.fsb''
                else base @ ''.fsb'') \<mapsto> take (fsb_length d k) (drop k d)))"
proof -
  define L where "L = fsb_length d k"
  define name where "name = (if cnt + 1 > 1 then base @ ''_'' @ to_string (cnt + 1) @ ''.fsb''
                    else base @ ''.fsb'')"
  have L60: "60 \<le> L" by (simp add: L_def fsb_length_def)
  have len: "k + 24 \<le> length d" using assms(5) L60 unfolding L_def by linarith
  note f = FindFSB5Signature_found [OF assms(1,2,3), of g]
  have r1: "read \<lparr>fdata = d, gpos = k, eofbit = False, failbit = False, gcount = 4\<rparr> 4
      = (take 4 (drop k d), \<lparr>fdata = d, gpos = k + 4, eofbit = False, failbit = False, gcount = 4\<rparr>)"
    using len by (intro read_ok) simp
  have r2: "read \<lparr>fdata = d, gpos = k + 4, eofbit = False, failbit = False, gcount = 4\<rparr> 4
      = (take 4 (drop (k + 4) d),
         \<lparr>fdata = d, gpos = k + 8, eofbit = False, failbit = False, gcount = 4\<rparr>)"
    using len read_ok [of "k + 4" 4 d 4] by simp
  have r3: "read \<lparr>fdata = d, gpos = k + 8, eofbit = False, failbit = False, gcount = 4\<rparr> 4
      = (take 4 (drop (k + 8) d),
         \<lparr>fdata = d, gpos = k + 12, eofbit = False, failbit = False, gcount = 4\<rparr>)"
    using len read_ok [of "k + 8" 4 d 4] by simp
  have r4: "read \<lparr>fdata = d, gpos = k + 12, eofbit = False, failbit = False, gcount = 4\<rparr> 4
      = (take 4 (drop (k + 12) d),
         \<lparr>fdata = d, gpos = k + 16, eofbit = False, failbit = False, gcount = 4\<rparr>)"
    using len read_ok [of "k + 12" 4 d 4] by simp
  have r5: "read \<lparr>fdata = d, gpos = k + 16, eofbit = False, failbit = False, gcount = 4\<rparr> 4
      = (take 4 (drop (k + 16) d),
         \<lparr>fdata = d, gpos = k + 20, eofbit = False, failbit = False, gcount = 4\<rparr>)"
    using len read_ok [of "k + 16" 4 d 4] by simp
  have r6: "read \<lparr>fdata = d, gpos = k + 20, eofbit = False, failbit = False, gcount = 4\<rparr> 4
      = (take 4 (drop (k + 20) d),
         \<lparr>fdata = d, gpos = k + 24, eofbit = False, failbit = False, gcount = 4\<rparr>)"
    using len read_ok [of "k + 20" 4 d 4] by simp
  have l4: "length (take 4 (drop (k + 12) d)) = 4" "length (take 4 (drop (k + 16) d)) = 4"
    "length (take 4 (drop (k + 20) d)) = 4"
    using len by simp_all
  have u: "u32_at (take 4 (drop (k + 12) d)) 0 = u32_at d (k + 12)"
    "u32_at (take 4 (drop (k + 16) d)) 0 = u32_at d (k + 16)"
    "u32_at (take 4 (drop (k + 20) d)) 0 = u32_at d (k + 20)"
    using len by (simp_all add: u32_at_take_drop)
  have sz: "unat ((0x3C :: 32 word) + u32_at d (k + 12) + u32_at d (k + 16) + u32_at d (k + 20))
      = L"
    using assms(4) unfolding L_def fsb_length_def by (intro unat_size_sum) simp
  have sk: "seekg_cur \<lparr>fdata = d, gpos = k + 24, eofbit = False, failbit = False, gcount = 4\<rparr>
        (- 24) = \<lparr>fdata = d, gpos = k, eofbit = False, failbit = False, gcount = 4\<rparr>"
    using seekg_cur_ok [of "k + 24" "- 24" d 4] by simp
  have r7: "read \<lparr>fdata = d, gpos = k, eofbit = False, failbit = False, gcount = 4\<rparr> L
      = (take L (drop k d), \<lparr>fdata = d, gpos = k + L, eofbit = False, failbit = False, gcount = L\<rparr>)"
    using assms(5) unfolding L_def by (intro read_ok)
  have lt: "length (take L (drop k d)) = L" using assms(5) unfolding L_def by simp
  have cr: "creatable name" using assms(6) unfolding name_def .
  have e: "\<not> (4::nat) < 4" "L - L = 0" "replicate 0 (0::byte) = []" by simp_all
  show ?thesis
    unfolding L_def [symmetric]
    by (subst ExtractFSBs_loop.simps(2))
      (simp only: f prod.case Let_def name_def [symmetric] cr r1 r2 r3 r4 r5 r6 l4 u sz sk r7 lt e
        not_True_eq_False not_False_eq_True if_True if_False simp_thms append_Nil2)
qed


lemma to_string_2: "to_string 2 = ''2''"
  by (simp add: to_string_def decimal.simps)

lemma extract_two:
  assumes "sig_at bank a" and "\<forall>j < a. \<not> sig_at bank j"
    and "fsb_length bank a < 2 ^ 32" and "a + fsb_length bank a \<le> b"
    and "\<forall>j. a + fsb_length bank a \<le> j \<and> j < b \<longrightarrow> \<not> sig_at bank j"
    and "sig_at bank b" and "fsb_length bank b < 2 ^ 32"
    and "b + fsb_length bank b \<le> length bank"
    and "\<forall>j. b + fsb_length bank b \<le> j \<longrightarrow> \<not> sig_at bank j"
    and "creatable (stem @ ''.fsb'')" and "creatable (stem @ ''_2.fsb'')"
  shows "ExtractFSBsFromBankFile 2 creatable True stem bank fs
     = Returns ([stem @ ''.fsb'', stem @ ''_2.fsb''],
                fs(stem @ ''.fsb'' \<mapsto> take (fsb_length bank a) (drop a bank),
                   stem @ ''_2.fsb'' \<mapsto> take (fsb_length bank b) (drop b bank)))
   \<and> length (take (fsb_length bank a) (drop a bank)) = fsb_length bank a
   \<and> length (take (fsb_length bank b) (drop b bank)) = fsb_length bank b"
proof -
  have n1: "\<forall>j. 0 \<le> j \<and> j < a \<longrightarrow> \<not> sig_at bank j" using assms(2) by simp
  have la: "a + fsb_length bank a \<le> length bank"
    using assms(4) sig_at_bound [OF assms(6)] by linarith
  have c1: "creatable (if (0::int) + 1 > 1 then stem @ ''_'' @ to_string (0 + 1) @ ''.fsb''
                    else stem @ ''.fsb'')"
    using assms(10) by simp
  have c2: "creatable (if (1::int) + 1 > 1 then stem @ ''_'' @ to_string (1 + 1) @ ''.fsb''
                    else stem @ ''.fsb'')"
    using assms(11) by (simp add: to_string_2)
  have s1: "ExtractFSBs_loop (Suc (Suc 0)) creatable stem
           \<lparr>fdata = bank, gpos = 0, eofbit = False, failbit = False, gcount = 0\<rparr> 0 [] fs
     = ExtractFSBs_loop (Suc 0) creatable stem
           \<lparr>fdata = bank, gpos = a + fsb_length bank a, eofbit = False, failbit = False,
            gcount = fsb_length bank a\<rparr> 1 [stem @ ''.fsb'']
           (fs(stem @ ''.fsb'' \<mapsto> take (fsb_length bank a) (drop a bank)))"
    using extract_step [where creatable = creatable and base = stem and cnt = 0 and n = "Suc 0"
        and g = 0 and fls = "[]" and fs = fs, OF assms(1) n1 _ assms(3) la c1] by simp
  have s2: "ExtractFSBs_loop (Suc 0) creatable stem
           \<lparr>fdata = bank, gpos = a + fsb_length bank a, eofbit = False, failbit = False,
            gcount = fsb_length bank a\<rparr> 1 [stem @ ''.fsb'']
           (fs(stem @ ''.fsb'' \<mapsto> take (fsb_length bank a) (drop a bank)))
     = ExtractFSBs_loop 0 creatable stem
           \<lparr>fdata = bank, gpos = b + fsb_length bank b, eofbit = False, failbit = False,
            gcount = fsb_length bank b\<rparr> 2 [stem @ ''.fsb'', stem @ ''_2.fsb'']
           (fs(stem @ ''.fsb'' \<mapsto> take (fsb_length bank a) (drop a bank),
               stem @ ''_2.fsb'' \<mapsto> take (fsb_length bank b) (drop b bank)))"
    using extract_step [where creatable = creatable and base = stem and cnt = 1 and n = 0
        and g = "fsb_length bank a" and fls = "[stem @ ''.fsb'']"
        and fs = "fs(stem @ ''.fsb'' \<mapsto> take (fsb_length bank a) (drop a bank))",
        OF assms(6) assms(5) assms(4) assms(7) assms(8) c2]
    by (simp add: to_string_2)
  note s3 = extract_end [where n = 0 and creatable = creatable and base = stem
      and g = "fsb_length bank b" and cnt = 2 and fls = "[stem @ ''.fsb'', stem @ ''_2.fsb'']"
      and fs = "fs(stem @ ''.fsb'' \<mapsto> take (fsb_length bank a) (drop a bank),
               stem @ ''_2.fsb'' \<mapsto> take (fsb_length bank b) (drop b bank))", OF assms(9)]
  have "ExtractFSBsFromBankFile 2 creatable True stem bank fs
     = Returns ([stem @ ''.fsb'', stem @ ''_2.fsb''],
                fs(stem @ ''.fsb'' \<mapsto> take (fsb_length bank a) (drop a bank),
                   stem @ ''_2.fsb'' \<mapsto> take (fsb_length bank b) (drop b bank)))"
    unfolding ExtractFSBsFromBankFile_def
    using s1 s2 s3 by (simp only: numeral_2_eq_2 not_True_eq_False if_False)
  moreover have "length (take (fsb_length bank a) (drop a bank)) = fsb_length bank a"
    using la by simp
  moreover have "length (take (fsb_length bank b) (drop b bank)) = fsb_length bank b"
    using assms(8) by simp
  ultimately show ?thesis by blast
qed

text \<open>
  C8 (as amended). Let the first signature of the outer container stand at offset \<open>a\<close>, let
  the header there declare \<open>L1 = 0x3C + streamHeaderSize + nameTableSize + dataSize\<close> bytes,
  let the first signature at or after \<open>a + L1\<close> stand at offset \<open>b\<close> and its header declare
  \<open>L2\<close> bytes, with both sums below \<open>2 ^ 32\<close>, the second extent within the file and no
  signature at or after \<open>b + L2\<close>. If the two temporary files can be created, the extraction
  returns exactly the two files \<open>stem.fsb\<close> and \<open>stem_2.fsb\<close>, in this order; the first holds
  the \<open>L1\<close> bytes from offset \<open>a\<close>, the second the \<open>L2\<close> bytes from offset \<open>b\<close>.
\<close>

theorem ExtractFSBs_two_subcontainers:
  assumes "sig_at bank a" and "\<forall>j < a. \<not> sig_at bank j"
    and "fsb_length bank a < 2 ^ 32" and "a + fsb_length bank a \<le> b"
    and "\<forall>j. a + fsb_length bank a \<le> j \<and> j < b \<longrightarrow> \<not> sig_at bank j"
    and "sig_at bank b" and "fsb_length bank b < 2 ^ 32"
    and "b + fsb_length bank b \<le> length bank"
    and "\<forall>j. b + fsb_length bank b \<le> j \<longrightarrow> \<not> sig_at bank j"
    and "creatable (stem @ ''.fsb'')" and "creatable (stem @ ''_2.fsb'')"
  shows "ExtractFSBsFromBankFile 2 creatable True stem bank fs
     = Returns ([stem @ ''.fsb'', stem @ ''_2.fsb''],
                fs(stem @ ''.fsb'' \<mapsto> take (fsb_length bank a) (drop a bank),
                   stem @ ''_2.fsb'' \<mapsto> take (fsb_length bank b) (drop b bank)))
   \<and> length (take (fsb_length bank a) (drop a bank)) = fsb_length bank a
   \<and> length (take (fsb_length bank b) (drop b bank)) = fsb_length bank b"
  using assms by (rule extract_two)

lemma fsb_lengths [simp]: "length fsb60 = 60" "length fsb84 = 84"
  by (simp_all add: fsb60_def fsb84_def)

lemma example_bank_length: "length example_bank = 146"
  by (simp add: example_bank_def)

lemma sig_at_shift: "sig_at (xs @ ys) (length xs + k) = sig_at ys k"
  by (simp add: sig_at_def)

lemma sig_at_prefix: "k + 4 \<le> length ys \<Longrightarrow> sig_at (ys @ zs) k = sig_at ys k"
  by (simp add: sig_at_def)

lemma u32_at_shift: "u32_at (xs @ ys) (length xs + k) = u32_at ys k"
  by (simp add: u32_at_def nth_append)

lemma u32_at_prefix: "k + 4 \<le> length ys \<Longrightarrow> u32_at (ys @ zs) k = u32_at ys k"
  by (simp add: u32_at_def nth_append)

lemma fsb_length_shift: "fsb_length (xs @ ys) (length xs + k) = fsb_length ys k"
  using u32_at_shift [of xs ys "k + 12"] u32_at_shift [of xs ys "k + 16"]
    u32_at_shift [of xs ys "k + 20"]
  by (simp add: fsb_length_def add.assoc)

lemma fsb_length_prefix: "k + 24 \<le> length ys \<Longrightarrow> fsb_length (ys @ zs) k = fsb_length ys k"
  by (simp add: fsb_length_def u32_at_prefix)

lemma fsb_heads:
  "sig_at fsb60 0" "sig_at fsb84 0" "fsb_length fsb60 0 = 60" "fsb_length fsb84 0 = 84"
  by (simp_all add: sig_at_def fsb60_def fsb84_def fsb_length_def u32_at_def le32_def
      FSB5_def bytes_of_def nth_append)


lemma replicate_numeral: "replicate (numeral k) x = x # replicate (pred_numeral k) x"
  by (simp add: numeral_eq_Suc)

lemma overlapping_bank_explicit:
  "overlapping_bank = [65, 70, 83, 66, 53, 1, 0, 0, 0, 0, 0, 0, 0, 0, 0, 0, 0, 0, 0, 0, 0,
      0, 0, 0, 0, 66, 66, 66, 66, 66, 70, 83, 66, 53, 1, 0, 0, 0, 0, 0, 0, 0, 0, 0, 0, 0, 0, 0,
      0, 0, 0, 0, 0, 0] @ replicate 36 0"
  by (simp add: overlapping_bank_def fsb60_def FSB5_def bytes_of_def le32_def replicate_numeral)

lemma sig_positions_overlapping: "sig_positions overlapping_bank = [1, 30]"
  unfolding sig_positions_def overlapping_bank_explicit
  by (simp add: sig_at_def FSB5_def bytes_of_def upt_rec [of _ "numeral n" for n]
      replicate_numeral)


lemma sig_at_iff: "sig_at d j = (j \<in> set (sig_positions d))"
proof
  assume s: "sig_at d j"
  hence "j < length d" using sig_at_bound [OF s] by simp
  thus "j \<in> set (sig_positions d)" using s by (simp add: sig_positions_def)
next
  assume "j \<in> set (sig_positions d)"
  thus "sig_at d j" by (simp add: sig_positions_def)
qed

lemma example_bank_explicit:
  "example_bank = [65, 70, 83, 66, 53, 1, 0, 0, 0, 0, 0, 0, 0, 0, 0, 0, 0, 0, 0, 0, 0, 24, 0, 0, 0]
      @ replicate 60 0
      @ [66, 70, 83, 66, 53, 1, 0, 0, 0, 0, 0, 0, 0, 0, 0, 0, 0, 0, 0, 0, 0, 0, 0, 0, 0]
      @ replicate 36 0"
  by (simp add: example_bank_def fsb60_def fsb84_def FSB5_def bytes_of_def le32_def)

lemma sig_positions_example: "sig_positions example_bank = [1, 86]"
  unfolding sig_positions_def example_bank_explicit
  by (simp add: sig_at_def FSB5_def bytes_of_def upt_rec [of _ "numeral n" for n]
      replicate_numeral)

lemma example_bank_lengths:
  "fsb_length example_bank 1 = 84" "fsb_length example_bank 86 = 60"
  unfolding example_bank_explicit
  by (simp_all add: fsb_length_def u32_at_def nth_append)

lemma overlapping_bank_lengths:
  "fsb_length overlapping_bank 1 = 60" "fsb_length overlapping_bank 30 = 60"
  "length overlapping_bank = 90"
  unfolding overlapping_bank_explicit
  by (simp_all add: fsb_length_def u32_at_def nth_append)

lemmas bank_lengths =
  example_bank_lengths overlapping_bank_lengths
  example_bank_lengths(1) [unfolded One_nat_def] overlapping_bank_lengths(1) [unfolded One_nat_def]

lemma example_bank_facts:
  "sig_at example_bank 1" "\<forall>j < 1. \<not> sig_at example_bank j"
  "fsb_length example_bank 1 < 2 ^ 32" "1 + fsb_length example_bank 1 \<le> 86"
  "\<forall>j. 1 + fsb_length example_bank 1 \<le> j \<and> j < 86 \<longrightarrow> \<not> sig_at example_bank j"
  "sig_at example_bank 86" "fsb_length example_bank 86 < 2 ^ 32"
  "86 + fsb_length example_bank 86 \<le> length example_bank"
  "\<forall>j. 86 + fsb_length example_bank 86 \<le> j \<longrightarrow> \<not> sig_at example_bank j"
  using example_bank_lengths
  by (simp_all add: sig_at_iff sig_positions_example bank_lengths example_bank_length)

lemma example_bank_extraction:
  "ExtractFSBsFromBankFile 2 (\<lambda>p. True) True ''music'' example_bank Map.empty
       = Returns ([''music.fsb'', ''music_2.fsb''],
                  [''music.fsb'' \<mapsto> take 84 (drop 1 example_bank),
                   ''music_2.fsb'' \<mapsto> take 60 (drop 86 example_bank)])"
  using extract_two [where creatable = "\<lambda>p. True" and stem = "''music''"
        and fs = Map.empty, OF example_bank_facts]
  by (simp add: bank_lengths)

text \<open>The theorem for the bank made of a junk byte, a sub-container of 84 bytes, a junk byte
  and a sub-container of 60 bytes.\<close>

theorem ExtractFSBs_two_subcontainers_witness:
  "sig_at example_bank 1 \<and> fsb_length example_bank 1 = 84
   \<and> sig_at example_bank 86 \<and> fsb_length example_bank 86 = 60
   \<and> sig_positions example_bank = [1, 86]
   \<and> ExtractFSBsFromBankFile 2 (\<lambda>p. True) True ''music'' example_bank Map.empty
       = Returns ([''music.fsb'', ''music_2.fsb''],
                  [''music.fsb'' \<mapsto> take 84 (drop 1 example_bank),
                   ''music_2.fsb'' \<mapsto> take 60 (drop 86 example_bank)])
   \<and> length (take 84 (drop 1 example_bank)) = 84
   \<and> length (take 60 (drop 86 example_bank)) = 60"
proof -
  have h1: "sig_at example_bank 1" by (simp add: sig_at_iff sig_positions_example)
  have h2: "\<forall>j < 1. \<not> sig_at example_bank j" by (simp add: sig_at_iff sig_positions_example)
  have h3: "fsb_length example_bank 1 < 2 ^ 32" using example_bank_lengths by simp
  have h4: "1 + fsb_length example_bank 1 \<le> 86" by (simp add: bank_lengths)
  have h5: "\<forall>j. 1 + fsb_length example_bank 1 \<le> j \<and> j < 86 \<longrightarrow> \<not> sig_at example_bank j"
    by (simp add: sig_at_iff sig_positions_example bank_lengths)
  have h6: "sig_at example_bank 86" by (simp add: sig_at_iff sig_positions_example)
  have h7: "fsb_length example_bank 86 < 2 ^ 32" by (simp add: bank_lengths)
  have h8: "86 + fsb_length example_bank 86 \<le> length example_bank"
    by (simp add: bank_lengths example_bank_length)
  have h9: "\<forall>j. 86 + fsb_length example_bank 86 \<le> j \<longrightarrow> \<not> sig_at example_bank j"
    by (simp add: sig_at_iff sig_positions_example bank_lengths)
  have h10: "(\<lambda>p::path. True) (''music'' @ ''.fsb'')" by simp
  have h11: "(\<lambda>p::path. True) (''music'' @ ''_2.fsb'')" by simp
  show ?thesis
    using ExtractFSBs_two_subcontainers [where creatable = "\<lambda>p. True" and stem = "''music''"
        and fs = Map.empty, OF h1 h2 h3 h4 h5 h6 h7 h8 h9 h10 h11] h1 h6
    by (simp add: bank_lengths sig_positions_example)
qed

text \<open>
  C8 as stated (any two signatures give two files) fails when the second signature lies
  inside the extent the first header declares: the bank below has exactly two signatures,
  at offsets 1 and 30, with junk before and between them, both headers declare 60 bytes and
  both extents lie within the 90 bytes of the file; the extraction copies the 60 bytes from
  offset 1, resumes the search at offset 61 and returns one file.
\<close>

theorem ExtractFSBs_overlapping_extents:
  "sig_positions overlapping_bank = [1, 30]
   \<and> fsb_length overlapping_bank 1 = 60 \<and> fsb_length overlapping_bank 30 = 60
   \<and> length overlapping_bank = 90
   \<and> ExtractFSBsFromBankFile 2 (\<lambda>p. True) True ''music'' overlapping_bank Map.empty
       = Returns ([''music.fsb''], [''music.fsb'' \<mapsto> take 60 (drop 1 overlapping_bank)])"
proof -
  have h1: "sig_at overlapping_bank 1" by (simp add: sig_at_iff sig_positions_overlapping)
  have h2: "\<forall>j. 0 \<le> j \<and> j < 1 \<longrightarrow> \<not> sig_at overlapping_bank j"
    by (simp add: sig_at_iff sig_positions_overlapping)
  have h3: "fsb_length overlapping_bank 1 < 2 ^ 32" using overlapping_bank_lengths by simp
  have h4: "1 + fsb_length overlapping_bank 1 \<le> length overlapping_bank"
    by (simp add: bank_lengths)
  have h5: "(\<lambda>p::path. True) (if (0::int) + 1 > 1 then ''music'' @ ''_'' @ to_string (0 + 1) @ ''.fsb''
                    else ''music'' @ ''.fsb'')"
    by simp
  have h6: "\<forall>j. 61 \<le> j \<longrightarrow> \<not> sig_at overlapping_bank j"
    by (simp add: sig_at_iff sig_positions_overlapping)
  have s1: "ExtractFSBs_loop (Suc (Suc 0)) (\<lambda>p. True) ''music''
           \<lparr>fdata = overlapping_bank, gpos = 0, eofbit = False, failbit = False, gcount = 0\<rparr>
           0 [] Map.empty
     = ExtractFSBs_loop (Suc 0) (\<lambda>p. True) ''music''
           \<lparr>fdata = overlapping_bank, gpos = 61, eofbit = False, failbit = False, gcount = 60\<rparr>
           1 [''music.fsb''] [''music.fsb'' \<mapsto> take 60 (drop 1 overlapping_bank)]"
    using extract_step [where creatable = "\<lambda>p. True" and base = "''music''" and cnt = 0
        and n = "Suc 0" and g = 0 and fls = "[]" and fs = Map.empty, OF h1 h2 _ h3 h4 h5]
    by (simp add: bank_lengths)
  note s2 = extract_end [where n = "Suc 0" and creatable = "\<lambda>p. True" and base = "''music''"
      and g = 60 and cnt = 1 and fls = "[''music.fsb'']"
      and fs = "[''music.fsb'' \<mapsto> take 60 (drop 1 overlapping_bank)]", OF h6]
  have "ExtractFSBsFromBankFile 2 (\<lambda>p. True) True ''music'' overlapping_bank Map.empty
       = Returns ([''music.fsb''], [''music.fsb'' \<mapsto> take 60 (drop 1 overlapping_bank)])"
    unfolding ExtractFSBsFromBankFile_def
    using s1 s2 by (simp only: numeral_2_eq_2 not_True_eq_False if_False)
  thus ?thesis
    by (simp add: sig_positions_overlapping bank_lengths)
qed







subsection \<open>The run as a whole\<close>

lemma loaded_append: "loaded (a @ b) = loaded a @ loaded b"
  by (induction a rule: loaded.induct) simp_all

lemma loaded_Sub_sounds: "loaded (map (\<lambda>i. Sub_sound p i (d i)) ns) = []"
  by (induction ns) simp_all





lemma process_files_completes:
  assumes "\<forall>p \<in> set ps. createSound eng p = FMOD_OK \<and> fst (getNumSubSounds eng p) = FMOD_OK"
  shows "\<exists>tr'. process_files eng ps tr = (tr', Inr ()) \<and> loaded tr' = loaded tr @ ps"
  using assms
proof (induction ps arbitrary: tr)
  case Nil
  then show ?case by simp
next
  case (Cons p ps)
  obtain r n where rn: "getNumSubSounds eng p = (r, n)" by (cases "getNumSubSounds eng p")
  from Cons.prems have p: "createSound eng p = FMOD_OK" "r = FMOD_OK" using rn by simp_all
  let ?tr = "tr @ [Load p] @ (if n > 0 then Processing_Start p
                  # map (\<lambda>i. Sub_sound p i (subSoundDone eng p i)) [0 ..< nat n]
                else [No_sub_sounds])"
  from Cons.IH [of ?tr] Cons.prems obtain tr' where
    "process_files eng ps ?tr = (tr', Inr ())"
    "loaded tr' = loaded ?tr @ ps" by auto
  moreover have "loaded ?tr = loaded tr @ [p]"
    by (simp add: loaded_append loaded_Sub_sounds)
  ultimately show ?case using p rn by simp
qed

lemma delete_temp_files_result:
  "\<exists>rm. delete_temp_files ps tr fs = (tr @ map Removed rm, \<lambda>p. if p \<in> set ps then None else fs p)
        \<and> set rm = {p \<in> set ps. fs p \<noteq> None}"
proof (induction ps arbitrary: tr fs)
  case Nil
  then show ?case by simp
next
  case (Cons p ps)
  show ?case
  proof (cases "fs p = None")
    case True
    from Cons [of tr fs] obtain rm where
      "delete_temp_files ps tr fs = (tr @ map Removed rm, \<lambda>q. if q \<in> set ps then None else fs q)"
      "set rm = {q \<in> set ps. fs q \<noteq> None}" by blast
    then show ?thesis using True
      by (intro exI [of _ rm]) (auto simp: fun_eq_iff)
  next
    case False
    from Cons [of "tr @ [Removed p]" "fs(p := None)"] obtain rm where
      "delete_temp_files ps (tr @ [Removed p]) (fs(p := None))
         = ((tr @ [Removed p]) @ map Removed rm, \<lambda>q. if q \<in> set ps then None else (fs(p := None)) q)"
      "set rm = {q \<in> set ps. (fs(p := None)) q \<noteq> None}" by blast
    then show ?thesis using False
      by (intro exI [of _ "p # rm"]) (auto simp: fun_eq_iff)
  qed
qed


lemma main_run_succeeds:
  assumes "systemInit eng = FMOD_OK"
    and "ExtractFSBsFromBankFile fuel creatable bankOpens stem bank fs = Returns (ps, fs1)"
    and "ps \<noteq> []"
    and "\<forall>p \<in> set ps. createSound eng p = FMOD_OK \<and> fst (getNumSubSounds eng p) = FMOD_OK"
  shows "\<exists>tr rm. main_run fuel eng creatable True bankOpens inputFilePath stem bank fs
                 = Returns (0, tr @ [Processing_End] @ map Removed rm,
                            \<lambda>p. if p \<in> set ps then None else fs1 p)
             \<and> loaded tr = ps \<and> set rm = {p \<in> set ps. fs1 p \<noteq> None}"
proof -
  from process_files_completes [OF assms(4), of "[]"] obtain tr where
    tr: "process_files eng ps [] = (tr, Inr ())" "loaded tr = ps" by auto
  from delete_temp_files_result [of ps "tr @ [Processing_End]" fs1] obtain rm where
    rm: "delete_temp_files ps (tr @ [Processing_End]) fs1
       = ((tr @ [Processing_End]) @ map Removed rm, \<lambda>p. if p \<in> set ps then None else fs1 p)"
    "set rm = {p \<in> set ps. fs1 p \<noteq> None}" by blast
  have "main_run fuel eng creatable True bankOpens inputFilePath stem bank fs
          = Returns (0, tr @ [Processing_End] @ map Removed rm,
                     \<lambda>p. if p \<in> set ps then None else fs1 p)"
    using assms(1,2,3) tr(1) rm(1) by (simp add: main_run_def)
  then show ?thesis using tr(2) rm(2) by blast
qed

lemma failing_run:
  "main_run 2 failing_engine (\<lambda>p. True) True True ''music.bank'' ''music'' example_bank Map.empty
     = Returns (1, [Load ''music.fsb'', Error_banner],
                [''music.fsb'' \<mapsto> take 84 (drop 1 example_bank),
                 ''music_2.fsb'' \<mapsto> take 60 (drop 86 example_bank)])"
  by (simp add: main_run_def example_bank_extraction failing_engine_def)

lemma working_run:
  "main_run 2 working_engine (\<lambda>p. True) True True ''music.bank'' ''music'' example_bank Map.empty
     = Returns (0, [Load ''music.fsb'', Processing_Start ''music.fsb'',
                    Sub_sound ''music.fsb'' 0 True,
                    Load ''music_2.fsb'', Processing_Start ''music_2.fsb'',
                    Sub_sound ''music_2.fsb'' 0 True,
                    Processing_End, Removed ''music.fsb'', Removed ''music_2.fsb''],
                Map.empty)"
  by (simp add: main_run_def example_bank_extraction working_engine_def fun_eq_iff)




text \<open>
  C4. The temporary sub-container files are deleted at the end of a run that succeeds, after
  the final message (lemma \<open>main_run_succeeds\<close>), but not at the end of a run that a fatal
  error aborts: the \<open>catch\<close> clause of \<open>main\<close> returns 1, and the deletion loop, which comes
  after it, is not reached. For the bank with two sub-containers, the run with the engine
  that fails on \<open>music.fsb\<close> returns 1 and leaves both temporary files in place, with the
  content the extraction gave them; the run with the engine that loads both returns 0 and
  removes both after the final message.
\<close>

theorem temp_files_kept_after_fatal_error:
  "main_run 2 failing_engine (\<lambda>p. True) True True ''music.bank'' ''music'' example_bank Map.empty
     = Returns (1, [Load ''music.fsb'', Error_banner],
                [''music.fsb'' \<mapsto> take 84 (drop 1 example_bank),
                 ''music_2.fsb'' \<mapsto> take 60 (drop 86 example_bank)])
   \<and> length (take 84 (drop 1 example_bank)) = 84
   \<and> length (take 60 (drop 86 example_bank)) = 60
   \<and> main_run 2 working_engine (\<lambda>p. True) True True ''music.bank'' ''music'' example_bank Map.empty
     = Returns (0, [Load ''music.fsb'', Processing_Start ''music.fsb'',
                    Sub_sound ''music.fsb'' 0 True,
                    Load ''music_2.fsb'', Processing_Start ''music_2.fsb'',
                    Sub_sound ''music_2.fsb'' 0 True,
                    Processing_End, Removed ''music.fsb'', Removed ''music_2.fsb''],
                Map.empty)"
  using failing_run working_run by (simp add: example_bank_length)

end
